theory Spec2Isabelle
  imports Complex_Main
begin

section \<open>Data shared by the three transfer programs\<close>

text \<open>
  File contents and MPI payloads are Python \<^verbatim>\<open>bytes\<close>; a \<^typ>\<open>char\<close> is one byte. The disk is a
  partial map from paths to contents. Chunk counts, chunk indices and ranks are the results
  of \<^verbatim>\<open>len\<close>, \<^verbatim>\<open>range\<close>, \<^verbatim>\<open>Get_rank\<close> and \<^verbatim>\<open>Get_size\<close>, hence natural numbers.
\<close>

type_synonym bytes = "char list"
type_synonym path = string
type_synonym fs = "path \<rightharpoonup> bytes"

text \<open>The values that travel inside pickled MPI messages; a dict keeps its items in order.\<close>

datatype pyval =
    PStr string
  | PInt nat
  | PBytes bytes
  | PList "pyval list"
  | PDict "(string \<times> pyval) list"

type_synonym pydict = "(string \<times> pyval) list"

text \<open>
  The \<^verbatim>\<open>dest\<close> and \<^verbatim>\<open>tag\<close> arguments of \<^verbatim>\<open>comm.send\<close>. The sources pass the wildcards
  \<^verbatim>\<open>MPI.ANY_SOURCE\<close> and \<^verbatim>\<open>MPI.ANY_TAG\<close> there, so both are values of the model.
\<close>

datatype mpi_dest = Rank nat | ANY_SOURCE
datatype mpi_tag = Tag nat | ANY_TAG

type_synonym message = "mpi_dest \<times> mpi_tag \<times> pyval"

datatype py_error =
  ZeroDivisionError | FileNotFoundError | KeyError | TypeError | ValueError | OSError

text \<open>
  How a blocking routine ends: it returns, it raises, or it waits for ever in a \<^verbatim>\<open>recv\<close>
  whose message never comes.
\<close>

datatype outcome = Completed | Raised py_error | Hang

text \<open>
  What the receivers obtain from \<^verbatim>\<open>comm.recv(source=s, tag=t)\<close> for the one sender \<^verbatim>\<open>s\<close> of a
  transfer: the payload handed over for tag \<^verbatim>\<open>t\<close>, or nothing at all, in which case the call
  never returns. Which posted message MPI matches with which receive is not modelled; a
  channel is an input of the receiving side.
\<close>

type_synonym chan = "nat \<rightharpoonup> pyval"

text \<open>Python's \<^verbatim>\<open>str\<close> of a non-negative integer, as the f-strings of the part files use it.\<close>

fun str_nat :: "nat \<Rightarrow> string" where
  "str_nat n =
     (if n < 10 then [''0123456789'' ! n]
      else str_nat (n div 10) @ [''0123456789'' ! (n mod 10)])"

declare str_nat.simps [simp del]

definition part_path :: "path \<Rightarrow> nat \<Rightarrow> path" where
  "part_path filepath worker = filepath @ ''.part'' @ str_nat worker"

text \<open>
  \<^verbatim>\<open>os.path.join(upload_dir, f"received_{timestamp}_{filename}")\<close>; the timestamp is read from
  the clock and is an input here.
\<close>

definition save_path :: "string \<Rightarrow> string \<Rightarrow> string \<Rightarrow> path" where
  "save_path upload_dir timestamp filename =
     upload_dir @ ''/'' @ ''received_'' @ timestamp @ ''_'' @ filename"

section \<open>The sender: \<^verbatim>\<open>send_file\<close>\<close>

text \<open>
  The read loop shared by all senders: \<^verbatim>\<open>chunk = f.read(chunk_size)\<close> until the chunk is
  empty.
\<close>

function read_chunks :: "nat \<Rightarrow> bytes \<Rightarrow> bytes list" where
  "read_chunks chunk_size data =
     (if take chunk_size data = [] then []
      else take chunk_size data # read_chunks chunk_size (drop chunk_size data))"
  by pat_completeness auto
termination
  by (relation "measure (\<lambda>(chunk_size, data). length data)") auto

declare read_chunks.simps [simp del]

text \<open>
  \<^verbatim>\<open>file_transfer.py\<close>, lines 217-218: every chunk goes out with \<^verbatim>\<open>dest=MPI.ANY_SOURCE\<close> and
  tag \<^verbatim>\<open>100 + i\<close>.
\<close>

definition send_chunks :: "bytes list \<Rightarrow> message list" where
  "send_chunks chunks =
     map (\<lambda>(i, chunk). (ANY_SOURCE, Tag (100 + i), PBytes chunk)) (enumerate 0 chunks)"

datatype send_result = SendReturns bool | SendRaises py_error

text \<open>
  \<^verbatim>\<open>MPIFileTransfer.send_file\<close>. The file is \<^term>\<open>None\<close> when the path does not exist;
  \<^term>\<open>response\<close> and \<^term>\<open>completion\<close> are what the two \<^verbatim>\<open>recv\<close> calls (tags 20 and 21) hand
  back. The result is the list of messages sent and the return value.
\<close>

definition send_file ::
  "nat \<Rightarrow> string \<Rightarrow> bytes option \<Rightarrow> pydict \<Rightarrow> pydict \<Rightarrow> message list \<times> send_result" where
  "send_file chunk_size filename file response completion =
     (case file of
        None \<Rightarrow> ([], SendReturns False)
      | Some data \<Rightarrow>
          let chunks = read_chunks chunk_size data;
              num_chunks = length chunks;
              request = PDict [(''type'', PStr ''send_file''), (''filename'', PStr filename),
                               (''filesize'', PInt (length data)), (''num_chunks'', PInt num_chunks)];
              sent0 = [(Rank 0, ANY_TAG, request)]
          in (case map_of response ''status'' of
               None \<Rightarrow> (sent0, SendRaises KeyError)
             | Some st \<Rightarrow>
                 if st = PStr ''ready'' then
                   (case map_of response ''method'' of
                      None \<Rightarrow> (sent0, SendRaises KeyError)
                    | Some m \<Rightarrow>
                        if m = PStr ''parallel'' \<and> map_of response ''workers'' = None
                        then (sent0, SendRaises KeyError)
                        else
                          (let sent1 = sent0 @ send_chunks chunks
                           in (case map_of completion ''status'' of
                                 None \<Rightarrow> (sent1, SendRaises KeyError)
                               | Some c \<Rightarrow> (sent1, SendReturns (c = PStr ''complete'')))))
                 else (sent0, SendReturns False)))"

text \<open>
  \<^verbatim>\<open>client.py\<close>, lines 66-67: the chunk is wrapped in a dict, the destination is the same
  wildcard.
\<close>

definition send_chunks_cli :: "bytes list \<Rightarrow> message list" where
  "send_chunks_cli chunks =
     map (\<lambda>(chunk_num, chunk_data).
            (ANY_SOURCE, Tag (100 + chunk_num), PDict [(''data'', PBytes chunk_data)]))
         (enumerate 0 chunks)"

text \<open>\<^verbatim>\<open>MPIFileTransferClient.send_file\<close> of \<^verbatim>\<open>client.py\<close>, run by the process of rank \<^term>\<open>rank\<close>.\<close>

definition send_file_cli ::
  "nat \<Rightarrow> nat \<Rightarrow> string \<Rightarrow> bytes option \<Rightarrow> pydict \<Rightarrow> pydict \<Rightarrow> message list \<times> send_result" where
  "send_file_cli rank chunk_size filename file response completion =
     (if rank \<noteq> 1 then ([], SendReturns False)
      else case file of
        None \<Rightarrow> ([], SendReturns False)
      | Some data \<Rightarrow>
          let chunks = read_chunks chunk_size data;
              num_chunks = length chunks;
              request = PDict [(''type'', PStr ''transfer''), (''source_rank'', PInt rank),
                               (''filename'', PStr filename), (''filesize'', PInt (length data)),
                               (''num_chunks'', PInt num_chunks)];
              sent0 = [(Rank 0, Tag 1, request)]
          in (case map_of response ''status'' of
               None \<Rightarrow> (sent0, SendRaises KeyError)
             | Some st \<Rightarrow>
                 if st = PStr ''ready'' then
                   (case map_of response ''filepath'' of
                      None \<Rightarrow> (sent0, SendRaises KeyError)
                    | Some p \<Rightarrow>
                        (let sent1 = sent0 @ send_chunks_cli chunks
                         in (case map_of completion ''status'' of
                               None \<Rightarrow> (sent1, SendRaises KeyError)
                             | Some c \<Rightarrow> (sent1, SendReturns (c = PStr ''complete'')))))
                 else (sent0, SendReturns False)))"

section \<open>The worker of \<^verbatim>\<open>file_transfer.py\<close>\<close>

text \<open>
  Lines 163-166: \<^verbatim>\<open>for i in range(start, end): chunk = recv(source, tag=100+i); f.write(chunk)\<close>.
  The buffer is what has been written to the open part file so far.
\<close>

fun recv_loop :: "chan \<Rightarrow> nat list \<Rightarrow> bytes \<Rightarrow> outcome \<times> bytes" where
  "recv_loop ch [] buf = (Completed, buf)"
| "recv_loop ch (i # rest) buf =
     (case ch (100 + i) of
        None \<Rightarrow> (Hang, buf)
      | Some (PBytes chunk) \<Rightarrow> recv_loop ch rest (buf @ chunk)
      | Some _ \<Rightarrow> (Raised TypeError, buf))"

text \<open>
  Lines 156-166, the body run for a \<^verbatim>\<open>'receive'\<close> message: the four fields are read with
  \<^verbatim>\<open>msg[...]\<close> (a missing key raises), the part file is opened with \<^verbatim>\<open>'wb'\<close> and filled. A
  field of the wrong type raises \<^verbatim>\<open>TypeError\<close>; the model does not say at which statement.
\<close>

definition worker_receive :: "chan \<Rightarrow> pydict \<Rightarrow> fs \<Rightarrow> outcome \<times> fs" where
  "worker_receive ch msg fs =
     (case map_of msg ''source'' of
        None \<Rightarrow> (Raised KeyError, fs)
      | Some source \<Rightarrow>
     (case map_of msg ''start_chunk'' of
        None \<Rightarrow> (Raised KeyError, fs)
      | Some sv \<Rightarrow>
     (case map_of msg ''end_chunk'' of
        None \<Rightarrow> (Raised KeyError, fs)
      | Some ev \<Rightarrow>
     (case map_of msg ''filepath'' of
        None \<Rightarrow> (Raised KeyError, fs)
      | Some pv \<Rightarrow>
     (case (sv, ev, pv) of
        (PInt start, PInt end_chunk, PStr filepath) \<Rightarrow>
          (case recv_loop ch [start..<end_chunk] [] of
             (oc, buf) \<Rightarrow> (oc, fs(filepath \<mapsto> buf)))
      | _ \<Rightarrow> (Raised TypeError, fs))))))"

datatype wstatus = Idle | Stopped | Blocked | Crashed py_error

text \<open>
  \<^verbatim>\<open>worker_process\<close>, lines 148-168: the loop over the control messages that arrive from rank 0
  under tag 30, in order. With the inbox used up the worker sits in \<^verbatim>\<open>recv\<close> (\<^term>\<open>Idle\<close>);
  \<^verbatim>\<open>break\<close> leaves the loop for good (\<^term>\<open>Stopped\<close>). The state is the disk and the messages
  the worker has sent.
\<close>

fun worker_process :: "chan \<Rightarrow> pydict list \<Rightarrow> fs \<times> message list \<Rightarrow> wstatus \<times> fs \<times> message list" where
  "worker_process ch [] (fs, out) = (Idle, fs, out)"
| "worker_process ch (msg # inbox) (fs, out) =
     (if map_of msg ''task'' = Some (PStr ''shutdown'') then (Stopped, fs, out)
      else if map_of msg ''task'' = Some (PStr ''receive'') then
        (case worker_receive ch msg fs of
           (Completed, fs') \<Rightarrow>
             worker_process ch inbox
               (fs', out @ [(Rank 0, Tag 31, PDict [(''status'', PStr ''done'')])])
         | (Hang, fs') \<Rightarrow> (Blocked, fs', out)
         | (Raised e, fs') \<Rightarrow> (Crashed e, fs', out))
      else worker_process ch inbox (fs, out))"

section \<open>The coordinator of \<^verbatim>\<open>file_transfer.py\<close>\<close>

text \<open>An entry of \<^verbatim>\<open>assignments\<close>: \<^verbatim>\<open>(worker, start, end, part_file)\<close>.\<close>

type_synonym assignment = "nat \<times> nat \<times> nat \<times> path"

text \<open>
  Lines 96-112, \<^verbatim>\<open>for i, worker in enumerate(workers)\<close>: the index \<^term>\<open>i\<close> and the running
  \<^term>\<open>start\<close> are the loop's state.
\<close>

fun assign_loop :: "path \<Rightarrow> nat \<Rightarrow> nat \<Rightarrow> nat \<Rightarrow> nat \<Rightarrow> nat list \<Rightarrow> assignment list" where
  "assign_loop filepath chunks_per_worker remainder i start [] = []"
| "assign_loop filepath chunks_per_worker remainder i start (worker # rest) =
     (let count = chunks_per_worker + (if i < remainder then 1 else 0);
          end_chunk = start + count
      in (worker, start, end_chunk, part_path filepath worker)
           # assign_loop filepath chunks_per_worker remainder (Suc i) end_chunk rest)"

text \<open>The dict sent to the worker in the same iteration (lines 103-109).\<close>

definition task_dict :: "nat \<Rightarrow> assignment \<Rightarrow> pydict" where
  "task_dict source a =
     (case a of (worker, start, end_chunk, part_file) \<Rightarrow>
        [(''task'', PStr ''receive''), (''source'', PInt source), (''start_chunk'', PInt start),
         (''end_chunk'', PInt end_chunk), (''filepath'', PStr part_file)])"

definition task_msg :: "nat \<Rightarrow> assignment \<Rightarrow> message" where
  "task_msg source a = (Rank (fst a), Tag 30, PDict (task_dict source a))"

text \<open>
  Between dispatch and collection every addressed worker runs \<^const>\<open>worker_receive\<close> on its
  task. The part files are private to their workers, so the runs are taken one after the
  other; the coordinator's \<^verbatim>\<open>recv(source=worker, tag=31)\<close> returns only when that worker has
  completed.
\<close>

fun run_workers :: "chan \<Rightarrow> pydict list \<Rightarrow> fs \<Rightarrow> outcome \<times> fs" where
  "run_workers ch [] fs = (Completed, fs)"
| "run_workers ch (task # rest) fs =
     (case worker_receive ch task fs of
        (Completed, fs') \<Rightarrow> run_workers ch rest fs'
      | (oc, fs') \<Rightarrow> (Hang, fs'))"

text \<open>
  Lines 119-122, the body of \<^verbatim>\<open>with open(filepath, 'wb') as outfile\<close>: read a part file whole,
  append it, remove it. \<^term>\<open>out\<close> is what has been written to \<^verbatim>\<open>outfile\<close>.
\<close>

fun reassemble :: "assignment list \<Rightarrow> fs \<Rightarrow> bytes \<Rightarrow> outcome \<times> fs \<times> bytes" where
  "reassemble [] fs out = (Completed, fs, out)"
| "reassemble ((worker, s, e, part_file) # rest) fs out =
     (case fs part_file of
        None \<Rightarrow> (Raised FileNotFoundError, fs, out)
      | Some d \<Rightarrow> reassemble rest (fs(part_file := None)) (out @ d))"

text \<open>
  \<^verbatim>\<open>coordinate_parallel_transfer\<close>, lines 92-122. The result is how the call ends, the disk and
  the messages the coordinator has sent by then.
\<close>

definition coordinate_parallel_transfer ::
  "chan \<Rightarrow> nat \<Rightarrow> nat list \<Rightarrow> path \<Rightarrow> nat \<Rightarrow> fs \<Rightarrow> outcome \<times> fs \<times> message list" where
  "coordinate_parallel_transfer ch source workers filepath num_chunks fs =
     (if length workers = 0 then (Raised ZeroDivisionError, fs, [])
      else
        (let chunks_per_worker = num_chunks div length workers;
             remainder = num_chunks mod length workers;
             assignments = assign_loop filepath chunks_per_worker remainder 0 0 workers;
             sent = map (task_msg source) assignments
         in (case run_workers ch (map (task_dict source) assignments) fs of
               (Completed, fs1) \<Rightarrow>
                 (case reassemble (sort_key (\<lambda>(w, s, e, p). s) assignments)
                         (fs1(filepath \<mapsto> [])) [] of
                    (oc, fs2, out) \<Rightarrow> (oc, fs2(filepath \<mapsto> out), sent))
             | (oc, fs1) \<Rightarrow> (Hang, fs1, sent))))"

text \<open>Lines 83-87: the coordinator receives every chunk itself.\<close>

definition receive_file_direct :: "chan \<Rightarrow> path \<Rightarrow> nat \<Rightarrow> fs \<Rightarrow> outcome \<times> fs" where
  "receive_file_direct ch filepath num_chunks fs =
     (case recv_loop ch [0..<num_chunks] [] of (oc, buf) \<Rightarrow> (oc, fs(filepath \<mapsto> buf)))"

definition ready_direct :: pydict where
  "ready_direct = [(''status'', PStr ''ready''), (''method'', PStr ''direct'')]"

definition ready_parallel :: "nat list \<Rightarrow> nat \<Rightarrow> pydict" where
  "ready_parallel selected_workers num_chunks =
     [(''status'', PStr ''ready''), (''method'', PStr ''parallel''),
      (''workers'', PList (map PInt selected_workers)), (''num_chunks'', PInt num_chunks)]"

definition complete_msg :: "nat \<Rightarrow> nat \<Rightarrow> message" where
  "complete_msg source tag = (Rank source, Tag tag, PDict [(''status'', PStr ''complete'')])"

text \<open>
  \<^verbatim>\<open>handle_file_transfer\<close>, lines 47-81, for a world of \<^term>\<open>comm_size\<close> processes
  (\<^verbatim>\<open>self.size\<close>) and a request \<^verbatim>\<open>{filename, filesize, num_chunks}\<close> received from rank
  \<^term>\<open>source\<close>.
\<close>

definition handle_file_transfer ::
  "nat \<Rightarrow> string \<Rightarrow> string \<Rightarrow> nat \<Rightarrow> nat \<Rightarrow> nat \<Rightarrow> chan \<Rightarrow> fs \<Rightarrow> outcome \<times> fs \<times> message list" where
  "handle_file_transfer comm_size timestamp filename filesize num_chunks source ch fs =
     (let filepath = save_path ''mpi_uploads'' timestamp filename;
          workers = filter (\<lambda>i. i \<noteq> source) [1..<comm_size]
      in if workers = [] \<or> num_chunks < 2 then
           (let sent = [(Rank source, Tag 20, PDict ready_direct)]
            in (case receive_file_direct ch filepath num_chunks fs of
                  (Completed, fs') \<Rightarrow> (Completed, fs', sent @ [complete_msg source 21])
                | (oc, fs') \<Rightarrow> (oc, fs', sent)))
         else
           (let num_workers = min (length workers) num_chunks;
                selected_workers = take num_workers workers;
                sent = [(Rank source, Tag 20, PDict (ready_parallel selected_workers num_chunks))]
            in (case coordinate_parallel_transfer ch source selected_workers filepath num_chunks fs of
                  (Completed, fs', sent') \<Rightarrow>
                    (Completed, fs', sent @ sent' @ [complete_msg source 21])
                | (oc, fs', sent') \<Rightarrow> (oc, fs', sent @ sent'))))"

section \<open>The worker and the coordinator of \<^verbatim>\<open>server.py\<close>\<close>

text \<open>Lines 125-127: the payload is a dict and the bytes are its \<^verbatim>\<open>'data'\<close> item.\<close>

fun recv_loop_srv :: "chan \<Rightarrow> nat list \<Rightarrow> bytes \<Rightarrow> outcome \<times> bytes" where
  "recv_loop_srv ch [] buf = (Completed, buf)"
| "recv_loop_srv ch (chunk_num # rest) buf =
     (case ch (100 + chunk_num) of
        None \<Rightarrow> (Hang, buf)
      | Some (PDict chunk_data) \<Rightarrow>
          (case map_of chunk_data ''data'' of
             None \<Rightarrow> (Raised KeyError, buf)
           | Some (PBytes b) \<Rightarrow> recv_loop_srv ch rest (buf @ b)
           | Some _ \<Rightarrow> (Raised TypeError, buf))
      | Some _ \<Rightarrow> (Raised TypeError, buf))"

text \<open>
  Lines 115-127, run by the worker of rank \<^term>\<open>rank\<close>: the part file is named by the worker
  from the final path it was given.
\<close>

definition worker_receive_srv :: "nat \<Rightarrow> chan \<Rightarrow> pydict \<Rightarrow> fs \<Rightarrow> outcome \<times> fs" where
  "worker_receive_srv rank ch work_data fs =
     (case map_of work_data ''source_rank'' of
        None \<Rightarrow> (Raised KeyError, fs)
      | Some source_rank \<Rightarrow>
     (case map_of work_data ''start_chunk'' of
        None \<Rightarrow> (Raised KeyError, fs)
      | Some sv \<Rightarrow>
     (case map_of work_data ''end_chunk'' of
        None \<Rightarrow> (Raised KeyError, fs)
      | Some ev \<Rightarrow>
     (case map_of work_data ''filepath'' of
        None \<Rightarrow> (Raised KeyError, fs)
      | Some pv \<Rightarrow>
     (case (sv, ev, pv) of
        (PInt start_chunk, PInt end_chunk, PStr filepath) \<Rightarrow>
          (case recv_loop_srv ch [start_chunk..<end_chunk] [] of
             (oc, buf) \<Rightarrow> (oc, fs(part_path filepath rank \<mapsto> buf)))
      | _ \<Rightarrow> (Raised TypeError, fs))))))"

text \<open>\<^verbatim>\<open>worker_process\<close> of \<^verbatim>\<open>server.py\<close>, lines 108-132; control messages carry tag 10.\<close>

fun worker_process_srv ::
  "nat \<Rightarrow> chan \<Rightarrow> pydict list \<Rightarrow> fs \<times> message list \<Rightarrow> wstatus \<times> fs \<times> message list" where
  "worker_process_srv rank ch [] (fs, out) = (Idle, fs, out)"
| "worker_process_srv rank ch (work_data # inbox) (fs, out) =
     (if map_of work_data ''type'' = Some (PStr ''shutdown'') then (Stopped, fs, out)
      else
        (case worker_receive_srv rank ch work_data fs of
           (Completed, fs') \<Rightarrow>
             worker_process_srv rank ch inbox
               (fs', out @ [(Rank 0, Tag 11, PDict [(''status'', PStr ''done'')])])
         | (Hang, fs') \<Rightarrow> (Blocked, fs', out)
         | (Raised e, fs') \<Rightarrow> (Crashed e, fs', out)))"

text \<open>Lines 69-85: the entries of \<^verbatim>\<open>chunk_assignments\<close> are \<^verbatim>\<open>(worker, start_chunk, end_chunk)\<close>.\<close>

fun assign_loop_srv :: "nat \<Rightarrow> nat \<Rightarrow> nat \<Rightarrow> nat \<Rightarrow> nat list \<Rightarrow> (nat \<times> nat \<times> nat) list" where
  "assign_loop_srv chunks_per_worker remainder i start_chunk [] = []"
| "assign_loop_srv chunks_per_worker remainder i start_chunk (worker # rest) =
     (let end_chunk = start_chunk + chunks_per_worker + (if i < remainder then 1 else 0)
      in (worker, start_chunk, end_chunk)
           # assign_loop_srv chunks_per_worker remainder (Suc i) end_chunk rest)"

definition work_data_dict :: "nat \<Rightarrow> path \<Rightarrow> nat \<times> nat \<times> nat \<Rightarrow> pydict" where
  "work_data_dict source_rank filepath a =
     (case a of (worker, start_chunk, end_chunk) \<Rightarrow>
        [(''source_rank'', PInt source_rank), (''start_chunk'', PInt start_chunk),
         (''end_chunk'', PInt end_chunk), (''filepath'', PStr filepath)])"

definition work_msg :: "nat \<Rightarrow> path \<Rightarrow> nat \<times> nat \<times> nat \<Rightarrow> message" where
  "work_msg source_rank filepath a =
     (Rank (fst a), Tag 10, PDict (work_data_dict source_rank filepath a))"

fun run_workers_srv :: "chan \<Rightarrow> (nat \<times> pydict) list \<Rightarrow> fs \<Rightarrow> outcome \<times> fs" where
  "run_workers_srv ch [] fs = (Completed, fs)"
| "run_workers_srv ch ((rank, work_data) # rest) fs =
     (case worker_receive_srv rank ch work_data fs of
        (Completed, fs') \<Rightarrow> run_workers_srv ch rest fs'
      | (oc, fs') \<Rightarrow> (Hang, fs'))"

text \<open>Lines 134-138.\<close>

definition receive_all_chunks :: "chan \<Rightarrow> path \<Rightarrow> nat \<Rightarrow> fs \<Rightarrow> outcome \<times> fs" where
  "receive_all_chunks ch filepath num_chunks fs =
     (case recv_loop_srv ch [0..<num_chunks] [] of (oc, buf) \<Rightarrow> (oc, fs(filepath \<mapsto> buf)))"

definition ready_srv :: "path \<Rightarrow> pydict" where
  "ready_srv filepath = [(''status'', PStr ''ready''), (''filepath'', PStr filepath)]"

text \<open>
  \<^verbatim>\<open>master_process\<close> of \<^verbatim>\<open>server.py\<close>, lines 36-92: one pass of the loop for a request of type
  \<^verbatim>\<open>'transfer'\<close>. The ready message leaves before the mode is chosen; \<^verbatim>\<open>num_chunks // num_workers\<close>
  raises when \<^verbatim>\<open>num_workers\<close> is 0; the completion message is sent in the \<^verbatim>\<open>else\<close> branch only.
\<close>

definition master_process_transfer ::
  "nat \<Rightarrow> string \<Rightarrow> nat \<Rightarrow> string \<Rightarrow> nat \<Rightarrow> nat \<Rightarrow> chan \<Rightarrow> fs \<Rightarrow> outcome \<times> fs \<times> message list" where
  "master_process_transfer comm_size timestamp source_rank filename filesize num_chunks ch fs =
     (let filepath = save_path ''mpi_uploads'' timestamp filename;
          sent0 = [(Rank source_rank, Tag 2, PDict (ready_srv filepath))];
          available_workers = remove1 source_rank [1..<comm_size]
      in if available_workers = [] then
           (case receive_all_chunks ch filepath num_chunks fs of (oc, fs') \<Rightarrow> (oc, fs', sent0))
         else
           (let num_workers = min (length available_workers) num_chunks;
                workers = take num_workers available_workers
            in if num_workers = 0 then (Raised ZeroDivisionError, fs, sent0)
               else
                 (let chunks_per_worker = num_chunks div num_workers;
                      remainder = num_chunks mod num_workers;
                      chunk_assignments = assign_loop_srv chunks_per_worker remainder 0 0 workers;
                      sent1 = map (work_msg source_rank filepath) chunk_assignments
                  in (case run_workers_srv ch
                             (map (\<lambda>a. (fst a, work_data_dict source_rank filepath a))
                                chunk_assignments) fs of
                        (Completed, fs') \<Rightarrow>
                          (Completed, fs', sent0 @ sent1 @ [complete_msg source_rank 3])
                      | (oc, fs') \<Rightarrow> (Hang, fs', sent0 @ sent1)))))"

section \<open>The XML-RPC server and its client\<close>

text \<open>
  The server's disk, as \<^verbatim>\<open>open\<close>, \<^verbatim>\<open>write\<close>, \<^verbatim>\<open>os.path.getsize\<close>, \<^verbatim>\<open>os.path.exists\<close> and
  \<^verbatim>\<open>os.remove\<close> see it. A file is an inode holding bytes and a path names an inode; removing
  a path takes the name away and leaves the inode to the handles still open on it. The paths
  at which \<^verbatim>\<open>open(path, 'wb')\<close> raises (a missing directory, a directory of that name, no
  permission) are part of the disk.
\<close>

record disk =
  names :: "path \<rightharpoonup> nat"
  inode_data :: "nat \<Rightarrow> bytes"
  next_inode :: nat
  refused :: "path set"

text \<open>
  The object returned by \<^verbatim>\<open>open(path, 'wb')\<close>: the inode it was opened on, its own position,
  and whether it has been closed. A write goes to the handle's position, not to the end of the
  file, and is taken to reach the inode at once: the contents of an inode are those the file
  has once the handles are flushed, and what a buffer holds back until then is not modelled.
\<close>

record handle =
  inode :: nat
  pos :: nat
  closed :: bool

text \<open>
  \<^verbatim>\<open>open(path, 'wb')\<close>: an existing file is truncated, a missing one is created; the new handle
  stands at position 0. \<^term>\<open>None\<close> where the call raises.
\<close>

definition open_wb :: "path \<Rightarrow> disk \<Rightarrow> (handle \<times> disk) option" where
  "open_wb p d =
     (if p \<in> refused d then None
      else case names d p of
        Some i \<Rightarrow>
          Some (\<lparr>inode = i, pos = 0, closed = False\<rparr>,
                d\<lparr>inode_data := (inode_data d)(i := [])\<rparr>)
      | None \<Rightarrow>
          (let i = next_inode d
           in Some (\<lparr>inode = i, pos = 0, closed = False\<rparr>,
                    d\<lparr>names := (names d)(p \<mapsto> i), inode_data := (inode_data d)(i := []),
                      next_inode := Suc i\<rparr>)))"

text \<open>
  Writing \<^term>\<open>b\<close> at position \<^term>\<open>p\<close> of a file: the bytes before \<^term>\<open>p\<close> stay (a file
  shorter than \<^term>\<open>p\<close> is filled up with zero bytes), \<^term>\<open>b\<close> follows, and what the file held
  beyond the written stretch stays.
\<close>

definition write_at :: "nat \<Rightarrow> bytes \<Rightarrow> bytes \<Rightarrow> bytes" where
  "write_at p b old =
     take p old @ replicate (p - length old) (CHR 0x00) @ b @ drop (p + length b) old"

text \<open>\<^verbatim>\<open>file_handle.write(b)\<close> on an open handle.\<close>

definition write_handle :: "handle \<Rightarrow> bytes \<Rightarrow> disk \<Rightarrow> handle \<times> disk" where
  "write_handle h b d =
     (h\<lparr>pos := pos h + length b\<rparr>,
      d\<lparr>inode_data := (inode_data d)(inode h := write_at (pos h) b (inode_data d (inode h)))\<rparr>)"

text \<open>
  What a reader of a path finds, \<^verbatim>\<open>os.path.getsize\<close> (\<^term>\<open>None\<close> where it raises because
  nothing has that name) and \<^verbatim>\<open>os.remove\<close>.
\<close>

definition file_at :: "disk \<Rightarrow> path \<Rightarrow> bytes option" where
  "file_at d p = map_option (inode_data d) (names d p)"

definition os_path_getsize :: "path \<Rightarrow> disk \<Rightarrow> nat option" where
  "os_path_getsize p d = map_option length (file_at d p)"

definition os_remove :: "path \<Rightarrow> disk \<Rightarrow> disk" where
  "os_remove p d = d\<lparr>names := (names d)(p := None)\<rparr>"

text \<open>An entry of \<^verbatim>\<open>active_transfers\<close>, and the state of the server: the dict and the disk.\<close>

record transfer =
  filename :: string
  filepath :: path
  filesize :: nat
  received :: nat
  file_handle :: handle

record rpc_server =
  active_transfers :: "string \<rightharpoonup> transfer"
  files :: disk

text \<open>
  The dicts the RPC methods return. \<^verbatim>\<open>progress\<close> is the exact quotient; Python rounds it to a
  double. \<^term>\<open>Invalid_transfer_ID\<close> is the error dict with that message, \<^term>\<open>Failed e\<close> the
  error dict of an \<^verbatim>\<open>except\<close> branch that caught \<^term>\<open>e\<close>.
\<close>

datatype rpc_response =
    StartOk string
  | ChunkOk nat rat
  | FinishOk path nat
  | CancelOk
  | Warning nat nat
  | Invalid_transfer_ID
  | Failed py_error

definition status :: "rpc_response \<Rightarrow> string" where
  "status r =
     (case r of
        Warning expected actual \<Rightarrow> ''warning''
      | Invalid_transfer_ID \<Rightarrow> ''error''
      | Failed e \<Rightarrow> ''error''
      | _ \<Rightarrow> ''success'')"

text \<open>
  \<^verbatim>\<open>start_transfer\<close>, lines 19-47; the two readings of the clock are inputs. When \<^verbatim>\<open>open\<close>
  raises, nothing has been stored and the error dict is returned. An entry already stored
  under the same transfer id is replaced.
\<close>

definition start_transfer ::
  "string \<Rightarrow> string \<Rightarrow> string \<Rightarrow> nat \<Rightarrow> rpc_server \<Rightarrow> rpc_response \<times> rpc_server" where
  "start_transfer now1 now2 fname fsize srv =
     (let transfer_id = fname @ ''_'' @ now1;
          fpath = save_path ''uploads'' now2 fname
      in (case open_wb fpath (files srv) of
            None \<Rightarrow> (Failed OSError, srv)
          | Some (h, d) \<Rightarrow>
              (let t = \<lparr>filename = fname, filepath = fpath, filesize = fsize, received = 0,
                        file_handle = h\<rparr>
               in (StartOk transfer_id,
                   srv\<lparr>active_transfers := (active_transfers srv)(transfer_id \<mapsto> t),
                       files := d\<rparr>))))"

text \<open>
  \<^verbatim>\<open>upload_chunk\<close>, lines 49-77. \<^term>\<open>b64decode\<close> stands for \<^verbatim>\<open>base64.b64decode\<close>, \<^term>\<open>None\<close>
  where it raises (\<^verbatim>\<open>binascii.Error\<close>, a \<^verbatim>\<open>ValueError\<close>). Writing through a closed handle raises
  \<^verbatim>\<open>ValueError\<close>; the division by \<^verbatim>\<open>filesize\<close> comes after the write and raises for a declared
  size of 0. Every exception ends in the \<^verbatim>\<open>except\<close> branch and an error dict.
  \<^term>\<open>chunk_number\<close> is used in the \<^verbatim>\<open>print\<close> of line 65 only.
\<close>

definition upload_chunk ::
  "(string \<Rightarrow> bytes option) \<Rightarrow> string \<Rightarrow> string \<Rightarrow> nat \<Rightarrow> rpc_server \<Rightarrow> rpc_response \<times> rpc_server" where
  "upload_chunk b64decode transfer_id chunk_data chunk_number srv =
     (case active_transfers srv transfer_id of
        None \<Rightarrow> (Invalid_transfer_ID, srv)
      | Some t \<Rightarrow>
          (case b64decode chunk_data of
             None \<Rightarrow> (Failed ValueError, srv)
           | Some binary_data \<Rightarrow>
               if closed (file_handle t) then (Failed ValueError, srv)
               else
                 (case write_handle (file_handle t) binary_data (files srv) of
                    (h, d) \<Rightarrow>
                      (let t' = t\<lparr>file_handle := h,
                                   received := received t + length binary_data\<rparr>;
                           srv' = srv\<lparr>active_transfers :=
                                        (active_transfers srv)(transfer_id \<mapsto> t'),
                                      files := d\<rparr>
                       in if filesize t = 0 then (Failed ZeroDivisionError, srv')
                          else (ChunkOk (received t')
                                  (of_nat (received t') / of_nat (filesize t) * 100), srv')))))"

text \<open>
  \<^verbatim>\<open>finish_transfer\<close>, lines 79-117. The handle is closed first; \<^verbatim>\<open>os.path.getsize\<close> raises
  when the path names nothing. The entry is deleted in the branch of equal sizes only: on a
  mismatch it stays in \<^verbatim>\<open>active_transfers\<close>, with its handle closed.
\<close>

definition finish_transfer :: "string \<Rightarrow> rpc_server \<Rightarrow> rpc_response \<times> rpc_server" where
  "finish_transfer transfer_id srv =
     (case active_transfers srv transfer_id of
        None \<Rightarrow> (Invalid_transfer_ID, srv)
      | Some t \<Rightarrow>
          (let t1 = t\<lparr>file_handle := (file_handle t)\<lparr>closed := True\<rparr>\<rparr>;
               srv1 = srv\<lparr>active_transfers := (active_transfers srv)(transfer_id \<mapsto> t1)\<rparr>
           in (case os_path_getsize (filepath t) (files srv) of
                 None \<Rightarrow> (Failed FileNotFoundError, srv1)
               | Some actual_size \<Rightarrow>
                   (let expected_size = filesize t
                    in if actual_size = expected_size then
                         (FinishOk (filepath t) actual_size,
                          srv1\<lparr>active_transfers := (active_transfers srv1)(transfer_id := None)\<rparr>)
                       else (Warning expected_size actual_size, srv1)))))"

text \<open>
  \<^verbatim>\<open>cancel_transfer\<close>, lines 119-145: the handle is closed, the file is removed if the path
  exists, the entry is deleted.
\<close>

definition cancel_transfer :: "string \<Rightarrow> rpc_server \<Rightarrow> rpc_response \<times> rpc_server" where
  "cancel_transfer transfer_id srv =
     (case active_transfers srv transfer_id of
        None \<Rightarrow> (Invalid_transfer_ID, srv)
      | Some t \<Rightarrow>
          (CancelOk,
           srv\<lparr>active_transfers := (active_transfers srv)(transfer_id := None),
               files := (if names (files srv) (filepath t) \<noteq> None
                         then os_remove (filepath t) (files srv) else files srv)\<rparr>))"

text \<open>
  The upload loop of the client's \<^verbatim>\<open>send_file\<close>, lines 64-82: chunk numbers start at 1; a
  response other than success cancels the transfer and ends the call with \<^verbatim>\<open>False\<close>.
\<close>

fun upload_loop ::
  "(bytes \<Rightarrow> string) \<Rightarrow> (string \<Rightarrow> bytes option) \<Rightarrow> string \<Rightarrow> bytes list \<Rightarrow> nat \<Rightarrow> rpc_server
     \<Rightarrow> bool \<times> rpc_server" where
  "upload_loop b64encode b64decode transfer_id [] chunk_number srv = (True, srv)"
| "upload_loop b64encode b64decode transfer_id (chunk # rest) chunk_number srv =
     (case upload_chunk b64decode transfer_id (b64encode chunk) (chunk_number + 1) srv of
        (response, srv') \<Rightarrow>
          if status response \<noteq> ''success''
          then (False, snd (cancel_transfer transfer_id srv'))
          else upload_loop b64encode b64decode transfer_id rest (chunk_number + 1) srv')"

text \<open>
  Lines 95-101 of the client: the call succeeds for the status \<^verbatim>\<open>'success'\<close> and fails
  (\<^verbatim>\<open>[ERROR] Failed to finalize transfer\<close>, \<^verbatim>\<open>return False\<close>) for any other; there is no branch
  for \<^verbatim>\<open>'warning'\<close>.
\<close>

definition finalize_rpc :: "rpc_response \<Rightarrow> bool" where
  "finalize_rpc response = (status response = ''success'')"

text \<open>
  \<^verbatim>\<open>FileTransferRPCClient.send_file\<close>, lines 30-105, against a server in state \<^term>\<open>srv\<close>. The
  file is \<^term>\<open>None\<close> when the path does not exist or is no regular file; otherwise it is the
  size given by \<^verbatim>\<open>os.path.getsize\<close> and the contents the later reads return, two inputs
  because they are two system calls. The result is the return value and the server's state.
\<close>

definition send_file_rpc ::
  "(bytes \<Rightarrow> string) \<Rightarrow> (string \<Rightarrow> bytes option) \<Rightarrow> nat \<Rightarrow> string \<Rightarrow> string \<Rightarrow> string
     \<Rightarrow> (nat \<times> bytes) option \<Rightarrow> rpc_server \<Rightarrow> bool \<times> rpc_server" where
  "send_file_rpc b64encode b64decode chunk_size now1 now2 fname file srv =
     (case file of
        None \<Rightarrow> (False, srv)
      | Some (fsize, contents) \<Rightarrow>
          (case start_transfer now1 now2 fname fsize srv of
             (response, srv1) \<Rightarrow>
               (case response of
                  StartOk transfer_id \<Rightarrow>
                    (case upload_loop b64encode b64decode transfer_id
                            (read_chunks chunk_size contents) 0 srv1 of
                       (False, srv2) \<Rightarrow> (False, srv2)
                     | (True, srv2) \<Rightarrow>
                         (case finish_transfer transfer_id srv2 of
                            (response', srv3) \<Rightarrow> (finalize_rpc response', srv3)))
                | _ \<Rightarrow> (False, srv1))))"

section \<open>The worker-to-range map of the specification\<close>

text \<open>
  The specification's \<^verbatim>\<open>TransferReady(Parallel)\<close> message has a field \<^verbatim>\<open>worker_ranges\<close>, a list
  of \<^verbatim>\<open>(worker_endpoint, start, end)\<close> entries, one for every participating worker. This is that
  list for the coordinator's assignments, in the specification's words, and what it means for
  a dict to carry a value.
\<close>

definition spec_worker_ranges :: "assignment list \<Rightarrow> pyval" where
  "spec_worker_ranges assignments =
     PList (map (\<lambda>(worker, start, end_chunk, part_file).
                   PList [PInt worker, PInt start, PInt end_chunk]) assignments)"

definition carries :: "pydict \<Rightarrow> pyval \<Rightarrow> bool" where
  "carries msg v = (v \<in> snd ` set msg)"

section \<open>The ranges a coordinator dispatches\<close>

text \<open>
  What a worker is told: the assignment messages of both coordinators are addressed to the
  worker's rank and carry the bounds under the keys \<^verbatim>\<open>'start_chunk'\<close> and \<^verbatim>\<open>'end_chunk'\<close>
  (\<^verbatim>\<open>file_transfer.py\<close>, lines 103-109; \<^verbatim>\<open>server.py\<close>, lines 76-82). The partition in force
  is read off the messages a coordinator has sent under the workers' control tag (30 and 10),
  in sending order.
\<close>

definition dispatched_range :: "message \<Rightarrow> (nat \<times> nat \<times> nat) option" where
  "dispatched_range m =
     (case m of
        (Rank worker, t, PDict d) \<Rightarrow>
          (case (map_of d ''start_chunk'', map_of d ''end_chunk'') of
             (Some (PInt start), Some (PInt end_chunk)) \<Rightarrow> Some (worker, start, end_chunk)
           | _ \<Rightarrow> None)
      | _ \<Rightarrow> None)"

definition dispatched_ranges :: "nat \<Rightarrow> message list \<Rightarrow> (nat \<times> nat \<times> nat) list" where
  "dispatched_ranges tag sent =
     List.map_filter dispatched_range (filter (\<lambda>m. fst (snd m) = Tag tag) sent)"

section \<open>Shutdown messages and sample inputs\<close>

text \<open>
  The dict of \<^verbatim>\<open>broadcast_shutdown\<close> (\<^verbatim>\<open>file_transfer.py\<close>, line 143) and the one \<^verbatim>\<open>server.py\<close>
  sends (line 102).
\<close>

definition shutdown_dict :: pydict where
  "shutdown_dict = [(''task'', PStr ''shutdown'')]"

definition shutdown_dict_srv :: pydict where
  "shutdown_dict_srv = [(''type'', PStr ''shutdown'')]"

text \<open>A sender's three bytes in two chunks, as posted by either sender with chunk size 2.\<close>

definition two_chunks :: chan where
  "two_chunks = [100 \<mapsto> PBytes ''ab'', 101 \<mapsto> PBytes ''c'']"

definition two_chunks_srv :: chan where
  "two_chunks_srv =
     [100 \<mapsto> PDict [(''data'', PBytes ''ab'')], 101 \<mapsto> PDict [(''data'', PBytes ''c'')]]"

text \<open>
  The RPC server as \<^verbatim>\<open>__init__\<close> leaves it, with an empty upload directory, and three entries
  of the base64 table (\<^verbatim>\<open>b64encode(b'ab') = 'YWI='\<close>, \<^verbatim>\<open>b64encode(b'c') = 'Yw=='\<close>,
  \<^verbatim>\<open>b64encode(b'abc') = 'YWJj'\<close>).
\<close>

definition init_server :: rpc_server where
  "init_server =
     \<lparr>active_transfers = Map.empty,
      files = \<lparr>names = Map.empty, inode_data = (\<lambda>i. []), next_inode = 0, refused = {}\<rparr>\<rparr>"

definition b64decode_sample :: "string \<Rightarrow> bytes option" where
  "b64decode_sample s =
     (if s = ''YWI='' then Some ''ab'' else if s = ''Yw=='' then Some ''c''
      else if s = ''YWJj'' then Some ''abc'' else None)"

definition b64encode_sample :: "bytes \<Rightarrow> string" where
  "b64encode_sample b =
     (if b = ''ab'' then ''YWI='' else if b = ''c'' then ''Yw==''
      else if b = ''abc'' then ''YWJj'' else [])"

text \<open>A file one byte longer than the senders' chunk size, 65536.\<close>

definition big_file :: bytes where
  "big_file = replicate 65536 (CHR ''a'') @ ''b''"

section \<open>The chunk partition\<close>

lemma assign_loop_closed:
  "assign_loop fp b r i (i * b + min i r) ws =
     map (\<lambda>(j, w). (w, j * b + min j r, Suc j * b + min (Suc j) r, part_path fp w)) (enumerate i ws)"
proof (induction ws arbitrary: i)
  case Nil
  show ?case by simp
next
  case (Cons w ws)
  have step: "i * b + min i r + (b + (if i < r then 1 else 0)) = Suc i * b + min (Suc i) r"
    by (simp add: min_def)
  show ?case
    using Cons.IH [of "Suc i"] by (simp add: Let_def step)
qed

lemma assign_loop_srv_closed:
  "assign_loop_srv b r i (i * b + min i r) ws =
     map (\<lambda>(j, w). (w, j * b + min j r, Suc j * b + min (Suc j) r)) (enumerate i ws)"
proof (induction ws arbitrary: i)
  case Nil
  show ?case by simp
next
  case (Cons w ws)
  have step: "i * b + min i r + b + (if i < r then 1 else 0) = Suc i * b + min (Suc i) r"
    by (simp add: min_def)
  show ?case
    using Cons.IH [of "Suc i"] by (simp add: Let_def step)
qed

lemma assign_loop_srv_0:
  "assign_loop_srv b r 0 0 ws =
     map (\<lambda>(j, w). (w, j * b + min j r, Suc j * b + min (Suc j) r)) (enumerate 0 ws)"
  using assign_loop_srv_closed [of b r 0 ws] by simp

lemma assign_loop_0:
  "assign_loop fp b r 0 0 ws =
     map (\<lambda>(j, w). (w, j * b + min j r, Suc j * b + min (Suc j) r, part_path fp w)) (enumerate 0 ws)"
  using assign_loop_closed [of fp b r 0 ws] by simp

lemma assign_loop_project:
  "map (\<lambda>(w, s, e, p). (w, s, e)) (assign_loop fp b r 0 0 ws) = assign_loop_srv b r 0 0 ws"
  by (simp add: assign_loop_0 assign_loop_srv_0 split_def)

lemma assign_loop_srv_nth:
  "i < length ws \<Longrightarrow>
     assign_loop_srv b r 0 0 ws ! i = (ws ! i, i * b + min i r, Suc i * b + min (Suc i) r)"
  by (simp add: assign_loop_srv_0 nth_enumerate_eq)

lemma assign_loop_srv_length: "length (assign_loop_srv b r i s ws) = length ws"
  by (induction ws arbitrary: i s) (simp_all add: Let_def)

lemma assign_loop_srv_workers: "map fst (assign_loop_srv b r i s ws) = ws"
  by (induction ws arbitrary: i s) (simp_all add: Let_def)

lemma upt_join: "a \<le> b \<Longrightarrow> b \<le> c \<Longrightarrow> [a..<b] @ [b..<c] = [a..<(c::nat)]"
  using upt_add_eq_append [of a b "c - b"] by simp

lemma ranges_cover:
  "concat (map (\<lambda>(j, w). [j * b + min j r..<Suc j * b + min (Suc j) r]) (enumerate i ws)) =
     [i * b + min i r..<(i + length ws) * b + min (i + length ws) r]"
proof (induction ws arbitrary: i)
  case Nil
  show ?case by simp
next
  case (Cons w ws)
  have le1: "i * b + min i r \<le> Suc i * b + min (Suc i) r"
    by (simp add: min_def)
  have le2: "Suc i * b + min (Suc i) r \<le> (Suc i + length ws) * b + min (Suc i + length ws) r"
    by (intro add_mono mult_le_mono1 min.mono) simp_all
  show ?case
    using Cons.IH [of "Suc i"] upt_join [OF le1 le2] by simp
qed

lemma count_bigger:
  "length (filter (\<lambda>(j, w). j < r) (enumerate i ws)) = min (i + length ws) r - min i r"
  by (induction ws arbitrary: i) (auto simp add: min_def)

text \<open>The messages sent determine the dispatched ranges.\<close>

lemma coordinate_parallel_transfer_sent:
  "workers \<noteq> [] \<Longrightarrow>
     snd (snd (coordinate_parallel_transfer ch source workers fp n fs)) =
       map (task_msg source)
         (assign_loop fp (n div length workers) (n mod length workers) 0 0 workers)"
  by (simp add: coordinate_parallel_transfer_def Let_def split: prod.splits outcome.splits)

lemma dispatched_ranges_Nil: "dispatched_ranges tag [] = []"
  by (simp add: dispatched_ranges_def map_filter_simps)

lemma dispatched_ranges_append:
  "dispatched_ranges tag (xs @ ys) = dispatched_ranges tag xs @ dispatched_ranges tag ys"
  by (simp add: dispatched_ranges_def map_filter_def)

lemma dispatched_ranges_other_tag:
  "t \<noteq> Tag tag \<Longrightarrow> dispatched_ranges tag ((d, t, m) # sent) = dispatched_ranges tag sent"
  by (simp add: dispatched_ranges_def)

lemma dispatched_ranges_task_msgs:
  "dispatched_ranges 30 (map (task_msg source) as) = map (\<lambda>(w, s, e, p). (w, s, e)) as"
  by (induction as)
     (simp_all add: dispatched_ranges_def map_filter_simps task_msg_def task_dict_def
        dispatched_range_def split_def)

lemma dispatched_ranges_work_msgs:
  "dispatched_ranges 10 (map (work_msg source fp) as) = as"
  by (induction as)
     (simp_all add: dispatched_ranges_def map_filter_simps work_msg_def work_data_dict_def
        dispatched_range_def split_def)

lemma coordinate_parallel_transfer_dispatched:
  "workers \<noteq> [] \<Longrightarrow>
     dispatched_ranges 30 (snd (snd (coordinate_parallel_transfer ch source workers fp n fs))) =
       assign_loop_srv (n div length workers) (n mod length workers) 0 0 workers"
  by (simp add: coordinate_parallel_transfer_sent dispatched_ranges_task_msgs assign_loop_project)

lemma master_process_transfer_dispatched:
  assumes "remove1 source [1..<comm_size] \<noteq> []" and "0 < n"
  shows "dispatched_ranges 10 (snd (snd (master_process_transfer comm_size ts source fn fsz n ch fs))) =
           (let avail = remove1 source [1..<comm_size];
                k = min (length avail) n
            in assign_loop_srv (n div k) (n mod k) 0 0 (take k avail))"
proof -
  let ?avail = "remove1 source [1..<comm_size]"
  let ?k = "min (length ?avail) n"
  have k: "?k \<noteq> 0" using assms by (cases ?avail) simp_all
  have pre: "dispatched_ranges 10 ((Rank source, Tag 2, m) # sent) = dispatched_ranges 10 sent"
    for m sent
    by (rule dispatched_ranges_other_tag) simp
  have post: "dispatched_ranges 10 [complete_msg source 3] = []"
    by (simp add: complete_msg_def dispatched_ranges_def map_filter_simps)
  show ?thesis
    using assms(1) k
    by (simp add: master_process_transfer_def Let_def pre post dispatched_ranges_append
          dispatched_ranges_work_msgs dispatched_ranges_Nil split: prod.splits outcome.splits)
qed

text \<open>
  The loop on its own: for \<^verbatim>\<open>num_chunks \<ge> 1\<close> and \<^verbatim>\<open>1 \<le> num_workers \<le> num_chunks\<close> the list
  it builds has every property of a balanced partition.
\<close>

lemma assign_loop_srv_balanced:
  assumes "1 \<le> num_chunks" and "1 \<le> length workers" and "length workers \<le> num_chunks"
  shows "let k = length workers;
             base = num_chunks div k;
             remainder = num_chunks mod k;
             rs = assign_loop_srv base remainder 0 0 workers
         in map fst rs = workers
          \<and> concat (map (\<lambda>(w, s, e). [s..<e]) rs) = [0..<num_chunks]
          \<and> (\<forall>i<k. case rs ! i of (w, s, e) \<Rightarrow> e = s + (if i < remainder then base + 1 else base))
          \<and> (case rs ! 0 of (w, s, e) \<Rightarrow> s = 0)
          \<and> (\<forall>i. Suc i < k \<longrightarrow>
                (case (rs ! i, rs ! Suc i) of ((w, s, e), (w', s', e')) \<Rightarrow> s' = e))
          \<and> (case rs ! (k - 1) of (w, s, e) \<Rightarrow> e = num_chunks)
          \<and> length (filter (\<lambda>(w, s, e). e - s = base + 1) rs) = remainder
          \<and> (\<forall>i<k. \<forall>j<k.
                (case (rs ! i, rs ! j) of ((w, s, e), (w', s', e')) \<Rightarrow> e - s \<le> e' - s' + 1))
          \<and> (\<forall>i<k. case rs ! i of (w, s, e) \<Rightarrow> s < e)"
proof -
  define k where "k = length workers"
  define base where "base = num_chunks div k"
  define remainder where "remainder = num_chunks mod k"
  define rs where "rs = assign_loop_srv base remainder 0 0 workers"
  have k_pos: "0 < k" using assms(2) by (cases workers) (simp_all add: k_def)
  have rem_lt: "remainder < k" using k_pos by (simp add: remainder_def)
  have total: "k * base + remainder = num_chunks"
    by (simp add: base_def remainder_def)
  have nth: "rs ! i = (workers ! i, i * base + min i remainder, Suc i * base + min (Suc i) remainder)"
    if "i < k" for i
    using that by (simp add: rs_def k_def assign_loop_srv_nth)
  have c2: "map fst rs = workers"
    by (simp add: rs_def assign_loop_srv_workers)
  have "concat (map (\<lambda>(w, s, e). [s..<e]) rs) = [0..<k * base + min k remainder]"
    using ranges_cover [of base remainder 0 workers]
    by (simp add: rs_def assign_loop_srv_0 k_def split_def o_def)
  then have c3: "concat (map (\<lambda>(w, s, e). [s..<e]) rs) = [0..<num_chunks]"
    using rem_lt total by (simp add: min_def)
  have c4: "\<forall>i<k. case rs ! i of (w, s, e) \<Rightarrow> e = s + (if i < remainder then base + 1 else base)"
    by (simp add: nth min_def)
  have c5: "case rs ! 0 of (w, s, e) \<Rightarrow> s = 0"
    using k_pos by (simp add: nth)
  have c6: "\<forall>i. Suc i < k \<longrightarrow>
              (case (rs ! i, rs ! Suc i) of ((w, s, e), (w', s', e')) \<Rightarrow> s' = e)"
    by (simp add: nth)
  have c7: "case rs ! (k - 1) of (w, s, e) \<Rightarrow> e = num_chunks"
    using k_pos rem_lt total by (simp add: nth min_def)
  have pred: "(Suc j * base + min (Suc j) remainder - (j * base + min j remainder) = Suc base)
                = (j < remainder)" for j
    by (auto simp add: min_def)
  have keys: "(\<lambda>(w, s, e). e - s = base + 1) \<circ>
          (\<lambda>(j, w). (w, j * base + min j remainder, Suc j * base + min (Suc j) remainder))
        = (\<lambda>(j, w). j < remainder)"
    by (rule ext) (simp add: split_def pred del: mult_Suc)
  have "length (filter (\<lambda>(w, s, e). e - s = base + 1) rs) =
          length (filter (\<lambda>(j, w). j < remainder) (enumerate 0 workers))"
    by (simp only: rs_def assign_loop_srv_0 filter_map length_map keys)
  then have c8: "length (filter (\<lambda>(w, s, e). e - s = base + 1) rs) = remainder"
    using rem_lt by (simp add: count_bigger k_def min_def)
  have cnt: "Suc i * base + min (Suc i) remainder - (i * base + min i remainder)
               = base + (if i < remainder then 1 else 0)" for i
    by (simp add: min_def)
  have c9: "\<forall>i<k. \<forall>j<k.
              (case (rs ! i, rs ! j) of ((w, s, e), (w', s', e')) \<Rightarrow> e - s \<le> e' - s' + 1)"
    by (simp add: nth cnt del: mult_Suc)
  have base_pos: "0 < base"
    using assms(3) k_pos by (simp add: base_def k_def div_greater_zero_iff)
  have c10: "\<forall>i<k. case rs ! i of (w, s, e) \<Rightarrow> s < e"
    using base_pos by (auto simp add: nth min_def)
  show ?thesis
    unfolding Let_def k_def [symmetric] base_def [symmetric] remainder_def [symmetric]
      rs_def [symmetric]
    using c2 c3 c4 c5 c6 c7 c8 c9 c10 by blast
qed

text \<open>
  Claim C2. For \<^verbatim>\<open>num_chunks \<ge> 1\<close> and \<^verbatim>\<open>1 \<le> num_workers \<le> num_chunks\<close> the ranges that
  \<^verbatim>\<open>coordinate_parallel_transfer\<close> dispatches to its workers (the assignment messages it
  sends under tag 30) follow the workers in selection order, cover \<^verbatim>\<open>[0, num_chunks)\<close> exactly
  once and in ascending order, start at 0, each start where the previous range ends, and end
  at \<^verbatim>\<open>num_chunks\<close>; worker \<^verbatim>\<open>i\<close> receives \<^verbatim>\<open>base + 1\<close> chunks when
  \<^verbatim>\<open>i < num_chunks mod num_workers\<close> and \<^verbatim>\<open>base\<close> chunks otherwise, exactly
  \<^verbatim>\<open>num_chunks mod num_workers\<close> workers receive \<^verbatim>\<open>base + 1\<close>, two workers' counts differ by at
  most 1, and no range is empty. \<^verbatim>\<open>master_process\<close> of \<^verbatim>\<open>server.py\<close>, whenever the workers it
  selects (the first \<^verbatim>\<open>min(len(available_workers), num_chunks)\<close> available ones) are these
  workers, dispatches the same ranges under tag 10.
\<close>

theorem partition_chunks_balanced:
  assumes "1 \<le> num_chunks" and "1 \<le> length workers" and "length workers \<le> num_chunks"
  shows "let k = length workers;
             base = num_chunks div k;
             remainder = num_chunks mod k;
             rs = dispatched_ranges 30
                    (snd (snd (coordinate_parallel_transfer ch source workers fpath num_chunks fs)));
             available_workers = remove1 source_rank [1..<comm_size];
             rs_srv = dispatched_ranges 10
                    (snd (snd (master_process_transfer comm_size ts source_rank fn fsz num_chunks
                                 ch_srv fs_srv)))
         in (take (min (length available_workers) num_chunks) available_workers = workers
               \<longrightarrow> rs_srv = rs)
          \<and> map fst rs = workers
          \<and> concat (map (\<lambda>(w, s, e). [s..<e]) rs) = [0..<num_chunks]
          \<and> (\<forall>i<k. case rs ! i of (w, s, e) \<Rightarrow> e = s + (if i < remainder then base + 1 else base))
          \<and> (case rs ! 0 of (w, s, e) \<Rightarrow> s = 0)
          \<and> (\<forall>i. Suc i < k \<longrightarrow>
                (case (rs ! i, rs ! Suc i) of ((w, s, e), (w', s', e')) \<Rightarrow> s' = e))
          \<and> (case rs ! (k - 1) of (w, s, e) \<Rightarrow> e = num_chunks)
          \<and> length (filter (\<lambda>(w, s, e). e - s = base + 1) rs) = remainder
          \<and> (\<forall>i<k. \<forall>j<k.
                (case (rs ! i, rs ! j) of ((w, s, e), (w', s', e')) \<Rightarrow> e - s \<le> e' - s' + 1))
          \<and> (\<forall>i<k. case rs ! i of (w, s, e) \<Rightarrow> s < e)"
proof -
  let ?avail = "remove1 source_rank [1..<comm_size]"
  have ne: "workers \<noteq> []" using assms(2) by auto
  have rs: "dispatched_ranges 30
              (snd (snd (coordinate_parallel_transfer ch source workers fpath num_chunks fs)))
            = assign_loop_srv (num_chunks div length workers) (num_chunks mod length workers) 0 0
                workers"
    using ne by (rule coordinate_parallel_transfer_dispatched)
  have srv: "dispatched_ranges 10
               (snd (snd (master_process_transfer comm_size ts source_rank fn fsz num_chunks
                            ch_srv fs_srv)))
             = assign_loop_srv (num_chunks div length workers) (num_chunks mod length workers) 0 0
                 workers"
    if sel: "take (min (length ?avail) num_chunks) ?avail = workers"
  proof -
    have av: "?avail \<noteq> []" using sel ne by auto
    have npos: "0 < num_chunks" using assms(1) by simp
    have len: "min (length ?avail) num_chunks = length workers"
      using sel [symmetric] by simp
    have sel': "take (length workers) ?avail = workers"
      using sel len by simp
    show ?thesis
      using master_process_transfer_dispatched [OF av npos, of ts fn fsz ch_srv fs_srv]
      by (simp only: Let_def len sel')
  qed
  show ?thesis
    using assign_loop_srv_balanced [OF assms] srv
    unfolding Let_def rs by blast
qed

theorem partition_chunks_balanced_witness:
  "(1::nat) \<le> 3 \<and> 1 \<le> length [2::nat, 3] \<and> length [2::nat, 3] \<le> 3
   \<and> take (min (length (remove1 1 [1..<4])) 3) (remove1 1 [1..<4]) = [2::nat, 3]
   \<and> dispatched_ranges 10
       (snd (snd (master_process_transfer 4 ''t'' 1 ''a.txt'' 5 3 two_chunks_srv Map.empty)))
       = [(2, 0, 2), (3, 2, 3)]
   \<and> dispatched_ranges 30
       (snd (snd (coordinate_parallel_transfer two_chunks 1 [2, 3] ''f'' 3 Map.empty)))
       = [(2, 0, 2), (3, 2, 3)]
   \<and> concat (map (\<lambda>(w, s, e). [s..<e])
       (dispatched_ranges 30
          (snd (snd (coordinate_parallel_transfer two_chunks 1 [2, 3] ''f'' 3 Map.empty)))))
       = [0..<3]
   \<and> length (filter (\<lambda>(w, s, e). e - s = 1 + 1)
       (dispatched_ranges 30
          (snd (snd (coordinate_parallel_transfer two_chunks 1 [2, 3] ''f'' 3 Map.empty)))))
       = 1"
proof -
  have h1: "(1::nat) \<le> 3" by simp
  have h2: "1 \<le> length [2::nat, 3]" by simp
  have h3: "length [2::nat, 3] \<le> 3" by simp
  have len: "length [2::nat, 3] = 2" by simp
  have dm: "(3::nat) div 2 = 1" "(3::nat) mod 2 = 1" by simp_all
  have sel: "take (min (length (remove1 1 [1..<4])) 3) (remove1 1 [1..<4]) = [2::nat, 3]"
    by (simp add: upt_conv_Cons)
  have ev: "dispatched_ranges 30
              (snd (snd (coordinate_parallel_transfer two_chunks 1 [2, 3] ''f'' 3 Map.empty)))
            = [(2, 0, 2), (3, 2, 3)]"
    by (simp add: coordinate_parallel_transfer_dispatched Let_def numeral_2_eq_2 [symmetric])
  note t = partition_chunks_balanced [OF h1 h2 h3, where ch = two_chunks and source = 1
      and fpath = "''f''" and fs = Map.empty and comm_size = 4 and source_rank = 1
      and ts = "''t''" and fn = "''a.txt''" and fsz = 5 and ch_srv = two_chunks_srv
      and fs_srv = Map.empty, unfolded Let_def len dm]
  show ?thesis using h1 h2 h3 sel t ev by (elim conjE) (simp only: simp_thms)
qed


section \<open>The worker after shutdown\<close>

lemma worker_process_after_shutdown:
  "map_of sd ''task'' = Some (PStr ''shutdown'') \<Longrightarrow>
     worker_process ch (pre @ sd # rest) st = worker_process ch (pre @ [sd]) st"
proof (induction pre arbitrary: st)
  case Nil
  then show ?case by (cases st) simp
next
  case (Cons m pre)
  obtain fs out where st: "st = (fs, out)" by (cases st)
  show ?case
    using Cons by (simp add: st split: prod.splits outcome.splits)
qed

lemma worker_process_srv_after_shutdown:
  "map_of sd ''type'' = Some (PStr ''shutdown'') \<Longrightarrow>
     worker_process_srv rank ch (pre @ sd # rest) st = worker_process_srv rank ch (pre @ [sd]) st"
proof (induction pre arbitrary: st)
  case Nil
  then show ?case by (cases st) simp
next
  case (Cons m pre)
  obtain fs out where st: "st = (fs, out)" by (cases st)
  show ?case
    using Cons by (simp add: st split: prod.splits outcome.splits)
qed

lemma worker_process_stopped:
  "map_of sd ''task'' = Some (PStr ''shutdown'') \<Longrightarrow>
   fst (worker_process ch pre st) = Idle \<Longrightarrow>
     worker_process ch (pre @ [sd]) st = (Stopped, snd (worker_process ch pre st))"
proof (induction pre arbitrary: st)
  case Nil
  then show ?case by (cases st) simp
next
  case (Cons m pre)
  obtain fs out where st: "st = (fs, out)" by (cases st)
  show ?case
    using Cons by (simp add: st split: prod.splits outcome.splits if_splits)
qed

lemma worker_process_srv_stopped:
  "map_of sd ''type'' = Some (PStr ''shutdown'') \<Longrightarrow>
   fst (worker_process_srv rank ch pre st) = Idle \<Longrightarrow>
     worker_process_srv rank ch (pre @ [sd]) st = (Stopped, snd (worker_process_srv rank ch pre st))"
proof (induction pre arbitrary: st)
  case Nil
  then show ?case by (cases st) simp
next
  case (Cons m pre)
  obtain fs out where st: "st = (fs, out)" by (cases st)
  show ?case
    using Cons by (simp add: st split: prod.splits outcome.splits if_splits)
qed

text \<open>
  Claim C9. Once a worker has taken a shutdown message it is \<^term>\<open>Stopped\<close> with the disk and
  the sent messages it had before; a second shutdown message, or any further messages
  (assignments included), delivered after that change nothing: the worker stays
  \<^term>\<open>Stopped\<close>, writes no file and sends no message. This holds for the worker of
  \<^verbatim>\<open>file_transfer.py\<close> and for the worker of \<^verbatim>\<open>server.py\<close>.
\<close>

theorem shutdown_is_final:
  assumes "map_of sd ''task'' = Some (PStr ''shutdown'')"
      and "map_of sd' ''type'' = Some (PStr ''shutdown'')"
      and "fst (worker_process ch pre st) = Idle"
      and "fst (worker_process_srv rank ch' pre' st') = Idle"
  shows "worker_process ch (pre @ [sd]) st = (Stopped, snd (worker_process ch pre st))
       \<and> worker_process ch (pre @ [sd] @ [sd]) st = worker_process ch (pre @ [sd]) st
       \<and> worker_process ch (pre @ [sd] @ rest) st = worker_process ch (pre @ [sd]) st
       \<and> worker_process_srv rank ch' (pre' @ [sd']) st'
           = (Stopped, snd (worker_process_srv rank ch' pre' st'))
       \<and> worker_process_srv rank ch' (pre' @ [sd'] @ [sd']) st'
           = worker_process_srv rank ch' (pre' @ [sd']) st'
       \<and> worker_process_srv rank ch' (pre' @ [sd'] @ rest') st'
           = worker_process_srv rank ch' (pre' @ [sd']) st'"
proof -
  have a: "worker_process ch (pre @ [sd]) st = (Stopped, snd (worker_process ch pre st))"
    using assms(1) assms(3) by (rule worker_process_stopped)
  have b: "worker_process ch (pre @ sd # tl) st = worker_process ch (pre @ [sd]) st" for tl
    using assms(1) by (rule worker_process_after_shutdown)
  have c: "worker_process_srv rank ch' (pre' @ [sd']) st'
             = (Stopped, snd (worker_process_srv rank ch' pre' st'))"
    using assms(2) assms(4) by (rule worker_process_srv_stopped)
  have d: "worker_process_srv rank ch' (pre' @ sd' # tl) st'
             = worker_process_srv rank ch' (pre' @ [sd']) st'" for tl
    using assms(2) by (rule worker_process_srv_after_shutdown)
  show ?thesis
    using a b [of "[sd]"] b [of rest] c d [of "[sd']"] d [of rest'] by simp
qed

lemma worker_process_sample:
  "worker_process two_chunks [task_dict 1 (2, 0, 2, ''f.part2'')] (Map.empty, [])
     = (Idle, [''f.part2'' \<mapsto> ''abc''], [(Rank 0, Tag 31, PDict [(''status'', PStr ''done'')])])"
  by (simp add: task_dict_def worker_receive_def two_chunks_def upt_conv_Cons)

lemma worker_process_srv_sample:
  "worker_process_srv 2 two_chunks_srv [work_data_dict 1 ''f'' (2, 0, 2)] (Map.empty, [])
     = (Idle, [''f.part2'' \<mapsto> ''abc''], [(Rank 0, Tag 11, PDict [(''status'', PStr ''done'')])])"
  by (simp add: work_data_dict_def worker_receive_srv_def two_chunks_srv_def part_path_def
        str_nat.simps upt_conv_Cons)

theorem shutdown_is_final_witness:
  "map_of shutdown_dict ''task'' = Some (PStr ''shutdown'')
   \<and> map_of shutdown_dict_srv ''type'' = Some (PStr ''shutdown'')
   \<and> fst (worker_process two_chunks [task_dict 1 (2, 0, 2, ''f.part2'')] (Map.empty, [])) = Idle
   \<and> fst (worker_process_srv 2 two_chunks_srv [work_data_dict 1 ''f'' (2, 0, 2)] (Map.empty, []))
        = Idle
   \<and> worker_process two_chunks
         ([task_dict 1 (2, 0, 2, ''f.part2'')] @ [shutdown_dict] @ [shutdown_dict])
         (Map.empty, [])
       = (Stopped, [''f.part2'' \<mapsto> ''abc''],
          [(Rank 0, Tag 31, PDict [(''status'', PStr ''done'')])])
   \<and> worker_process two_chunks
         ([task_dict 1 (2, 0, 2, ''f.part2'')] @ [shutdown_dict]
            @ [task_dict 1 (2, 0, 1, ''g.part2''), shutdown_dict])
         (Map.empty, [])
       = (Stopped, [''f.part2'' \<mapsto> ''abc''],
          [(Rank 0, Tag 31, PDict [(''status'', PStr ''done'')])])
   \<and> worker_process_srv 2 two_chunks_srv
         ([work_data_dict 1 ''f'' (2, 0, 2)] @ [shutdown_dict_srv] @ [shutdown_dict_srv])
         (Map.empty, [])
       = (Stopped, [''f.part2'' \<mapsto> ''abc''],
          [(Rank 0, Tag 11, PDict [(''status'', PStr ''done'')])])
   \<and> worker_process_srv 2 two_chunks_srv
         ([work_data_dict 1 ''f'' (2, 0, 2)] @ [shutdown_dict_srv]
            @ [work_data_dict 1 ''g'' (2, 0, 1), shutdown_dict_srv])
         (Map.empty, [])
       = (Stopped, [''f.part2'' \<mapsto> ''abc''],
          [(Rank 0, Tag 11, PDict [(''status'', PStr ''done'')])])"
proof -
  have h1: "map_of shutdown_dict ''task'' = Some (PStr ''shutdown'')"
    by (simp add: shutdown_dict_def)
  have h2: "map_of shutdown_dict_srv ''type'' = Some (PStr ''shutdown'')"
    by (simp add: shutdown_dict_srv_def)
  have h3: "fst (worker_process two_chunks [task_dict 1 (2, 0, 2, ''f.part2'')] (Map.empty, []))
              = Idle"
    by (simp only: worker_process_sample fst_conv)
  have h4: "fst (worker_process_srv 2 two_chunks_srv [work_data_dict 1 ''f'' (2, 0, 2)]
              (Map.empty, [])) = Idle"
    by (simp only: worker_process_srv_sample fst_conv)
  note t = shutdown_is_final [OF h1 h2 h3 h4,
      of "[task_dict 1 (2, 0, 1, ''g.part2''), shutdown_dict]"
         "[work_data_dict 1 ''g'' (2, 0, 1), shutdown_dict_srv]"]
  note t' = t [unfolded worker_process_sample worker_process_srv_sample snd_conv]
  show ?thesis
    using h1 h2 h3 h4 t' by (elim conjE) (simp only: simp_thms)
qed

section \<open>The RPC server's \<^verbatim>\<open>upload_chunk\<close>\<close>







text \<open>
  The handle of a transfer that \<^verbatim>\<open>start_transfer\<close> has just registered is open, on the file
  its path names, and at the end of that file; an upload to another transfer whose handle is on
  another file leaves all of this as it is.
\<close>

lemma start_transfer_at_end:
  assumes "start_transfer now1 now2 fname fsize srv = (StartOk tid, srv')"
  shows "\<exists>t. active_transfers srv' tid = Some t
           \<and> \<not> closed (file_handle t)
           \<and> names (files srv') (filepath t) = Some (inode (file_handle t))
           \<and> pos (file_handle t) = length (inode_data (files srv') (inode (file_handle t)))"
  using assms
  by (auto simp add: start_transfer_def open_wb_def Let_def split: if_splits option.splits)

lemma upload_chunk_elsewhere:
  assumes "active_transfers srv tid = Some t" and "active_transfers srv tid' = Some t'"
      and "tid' \<noteq> tid" and "inode (file_handle t') \<noteq> inode (file_handle t)"
  shows "active_transfers (snd (upload_chunk dec tid' cd n srv)) tid = Some t
       \<and> names (files (snd (upload_chunk dec tid' cd n srv))) = names (files srv)
       \<and> inode_data (files (snd (upload_chunk dec tid' cd n srv))) (inode (file_handle t))
           = inode_data (files srv) (inode (file_handle t))"
  using assms
  by (simp add: upload_chunk_def write_handle_def Let_def split: option.splits)

section \<open>Runs of \<^verbatim>\<open>server.py\<close> and of the senders on sample inputs\<close>

lemma read_chunks_two:
  assumes "0 < n" and "length xs = n" and "ys \<noteq> []" and "length ys \<le> n"
  shows "read_chunks n (xs @ ys) = [xs, ys]"
proof -
  have x: "xs \<noteq> []" using assms(1) assms(2) by auto
  have "read_chunks n (xs @ ys) = xs # read_chunks n ys"
    using assms x by (subst read_chunks.simps) simp
  also have "read_chunks n ys = ys # read_chunks n []"
    using assms by (subst read_chunks.simps) simp
  also have "read_chunks n [] = []"
    by (simp add: read_chunks.simps)
  finally show ?thesis .
qed

lemma read_chunks_big_file:
  "read_chunks 65536 big_file = [replicate 65536 (CHR ''a''), ''b'']"
  unfolding big_file_def
  by (rule read_chunks_two) (simp_all only: length_replicate list.size, simp_all)

lemma length_big_file: "length big_file = 65537"
  by (simp add: big_file_def)

lemma read_chunks_abc_whole: "read_chunks 65536 ''abc'' = [''abc'']"
  by (simp add: read_chunks.simps)

lemmas eval_defs = master_process_transfer_def save_path_def ready_srv_def Let_def
  work_msg_def work_data_dict_def worker_receive_srv_def part_path_def str_nat.simps
  complete_msg_def upt_conv_Cons receive_all_chunks_def

text \<open>
  Claim C1 (round trip), on \<^verbatim>\<open>server.py\<close>. Four processes, the sender at rank 1 with a file
  of two chunks, \<^verbatim>\<open>ab\<close> and \<^verbatim>\<open>c\<close>: the transfer completes and the sender is told so, the two workers
  have written their part files, and no file exists at the path the sender was given. Nothing
  in \<^verbatim>\<open>master_process\<close> joins the parts, unlike \<^verbatim>\<open>coordinate_parallel_transfer\<close> of
  \<^verbatim>\<open>file_transfer.py\<close> (see \<open>round_trip\<close> below).
\<close>

theorem server_py_parallel_no_final_file:
  "master_process_transfer 4 ''t'' 1 ''a.txt'' 3 2 two_chunks_srv Map.empty =
     (Completed,
      [''mpi_uploads/received_t_a.txt.part2'' \<mapsto> ''ab'',
       ''mpi_uploads/received_t_a.txt.part3'' \<mapsto> ''c''],
      [(Rank 1, Tag 2, PDict [(''status'', PStr ''ready''),
                              (''filepath'', PStr ''mpi_uploads/received_t_a.txt'')]),
       (Rank 2, Tag 10, PDict [(''source_rank'', PInt 1), (''start_chunk'', PInt 0),
                               (''end_chunk'', PInt 1),
                               (''filepath'', PStr ''mpi_uploads/received_t_a.txt'')]),
       (Rank 3, Tag 10, PDict [(''source_rank'', PInt 1), (''start_chunk'', PInt 1),
                               (''end_chunk'', PInt 2),
                               (''filepath'', PStr ''mpi_uploads/received_t_a.txt'')]),
       (Rank 1, Tag 3, PDict [(''status'', PStr ''complete'')])])
   \<and> fst (snd (master_process_transfer 4 ''t'' 1 ''a.txt'' 3 2 two_chunks_srv Map.empty))
         ''mpi_uploads/received_t_a.txt'' = None"
  by (simp add: eval_defs two_chunks_srv_def numeral_2_eq_2 [symmetric])

text \<open>
  Claim C3 (choice of the mode), on \<^verbatim>\<open>server.py\<close>. With one chunk and a worker available the
  claim asks for Direct mode; \<^verbatim>\<open>master_process\<close> tests only whether a worker is available
  and dispatches the range \<^verbatim>\<open>[0, 1)\<close> to worker 2. \<^verbatim>\<open>handle_file_transfer\<close> of
  \<^verbatim>\<open>file_transfer.py\<close> has the test \<^verbatim>\<open>num_chunks < 2\<close> (see \<open>decide_strategy\<close> below).
\<close>

theorem server_py_one_chunk_goes_parallel:
  "master_process_transfer 3 ''t'' 1 ''a.txt'' 1 1 [100 \<mapsto> PDict [(''data'', PBytes ''x'')]] Map.empty =
     (Completed, [''mpi_uploads/received_t_a.txt.part2'' \<mapsto> ''x''],
      [(Rank 1, Tag 2, PDict [(''status'', PStr ''ready''),
                              (''filepath'', PStr ''mpi_uploads/received_t_a.txt'')]),
       (Rank 2, Tag 10, PDict [(''source_rank'', PInt 1), (''start_chunk'', PInt 0),
                               (''end_chunk'', PInt 1),
                               (''filepath'', PStr ''mpi_uploads/received_t_a.txt'')]),
       (Rank 1, Tag 3, PDict [(''status'', PStr ''complete'')])])"
  by (simp add: eval_defs)

text \<open>
  Claim C4 (reassembly), on \<^verbatim>\<open>server.py\<close>. After a completed parallel transfer the part file
  of the one worker is still on the disk, and it is the only file: the coordinator has
  written no output file and removed nothing.
\<close>

theorem server_py_part_files_remain:
  "master_process_transfer 3 ''t'' 1 ''a.txt'' 3 2 two_chunks_srv Map.empty =
     (Completed,
      [''mpi_uploads/received_t_a.txt.part2'' \<mapsto> ''abc''],
      [(Rank 1, Tag 2, PDict [(''status'', PStr ''ready''),
                              (''filepath'', PStr ''mpi_uploads/received_t_a.txt'')]),
       (Rank 2, Tag 10, PDict [(''source_rank'', PInt 1), (''start_chunk'', PInt 0),
                               (''end_chunk'', PInt 2),
                               (''filepath'', PStr ''mpi_uploads/received_t_a.txt'')]),
       (Rank 1, Tag 3, PDict [(''status'', PStr ''complete'')])])"
  by (simp add: eval_defs two_chunks_srv_def numeral_2_eq_2 [symmetric])

text \<open>
  Claim C6 (routing of the chunks). For a file of 65537 bytes, hence two chunks, and workers 2
  and 3 in the Parallel response, both senders address every chunk to \<^verbatim>\<open>MPI.ANY_SOURCE\<close>, not
  to the worker that owns the index; only the tag depends on the chunk index.
\<close>

theorem send_file_wildcard_destination:
  "send_file 65536 ''a.bin'' (Some big_file) (ready_parallel [2, 3] 2)
       [(''status'', PStr ''complete'')] =
     ([(Rank 0, ANY_TAG, PDict [(''type'', PStr ''send_file''), (''filename'', PStr ''a.bin''),
                                (''filesize'', PInt 65537), (''num_chunks'', PInt 2)]),
       (ANY_SOURCE, Tag 100, PBytes (replicate 65536 (CHR ''a''))),
       (ANY_SOURCE, Tag 101, PBytes ''b'')],
      SendReturns True)
   \<and> send_file_cli 1 65536 ''a.bin'' (Some big_file) (ready_srv ''p'')
       [(''status'', PStr ''complete'')] =
     ([(Rank 0, Tag 1, PDict [(''type'', PStr ''transfer''), (''source_rank'', PInt 1),
                              (''filename'', PStr ''a.bin''),
                              (''filesize'', PInt 65537), (''num_chunks'', PInt 2)]),
       (ANY_SOURCE, Tag 100, PDict [(''data'', PBytes (replicate 65536 (CHR ''a'')))]),
       (ANY_SOURCE, Tag 101, PDict [(''data'', PBytes ''b'')])],
      SendReturns True)"
  by (simp add: send_file_def send_file_cli_def read_chunks_big_file length_big_file
        ready_parallel_def ready_srv_def
        send_chunks_def send_chunks_cli_def enumerate_eq_zip upt_conv_Cons Let_def)

text \<open>
  Claim C7 (empty file), on \<^verbatim>\<open>server.py\<close>. With \<^verbatim>\<open>num_chunks = 0\<close> and a worker available
  \<^verbatim>\<open>master_process\<close> sends the ready message and then raises \<^verbatim>\<open>ZeroDivisionError\<close> in
  \<^verbatim>\<open>num_chunks // num_workers\<close>: no file is created and no completion is sent.
\<close>

theorem server_py_crashes_on_empty_file:
  "master_process_transfer 3 ''t'' 1 ''a.txt'' 0 0 Map.empty Map.empty =
     (Raised ZeroDivisionError, Map.empty,
      [(Rank 1, Tag 2, PDict [(''status'', PStr ''ready''),
                              (''filepath'', PStr ''mpi_uploads/received_t_a.txt'')])])"
  by (simp add: eval_defs)

section \<open>The readiness response\<close>

lemma filter_task_msgs:
  "filter (\<lambda>m. fst (snd m) = Tag 30) (map (task_msg source) as) = map (task_msg source) as"
  by (induction as) (simp_all add: task_msg_def)

lemma handle_file_transfer_direct_sent:
  assumes "filter (\<lambda>i. i \<noteq> source) [1..<comm_size] = [] \<or> n < 2"
  shows "snd (snd (handle_file_transfer comm_size ts fn fsz n source ch fs)) ! 0
           = (Rank source, Tag 20, PDict ready_direct)
       \<and> filter (\<lambda>m. fst (snd m) = Tag 30)
           (snd (snd (handle_file_transfer comm_size ts fn fsz n source ch fs))) = []"
  using assms
  by (auto simp add: handle_file_transfer_def Let_def complete_msg_def
        split: prod.splits outcome.splits)

lemma handle_file_transfer_parallel_sent:
  assumes "\<not> (filter (\<lambda>i. i \<noteq> source) [1..<comm_size] = [] \<or> n < 2)"
  defines "sel \<equiv> take (min (length (filter (\<lambda>i. i \<noteq> source) [1..<comm_size])) n)
                   (filter (\<lambda>i. i \<noteq> source) [1..<comm_size])"
  shows "snd (snd (handle_file_transfer comm_size ts fn fsz n source ch fs)) ! 0
           = (Rank source, Tag 20, PDict (ready_parallel sel n))
       \<and> filter (\<lambda>m. fst (snd m) = Tag 30)
           (snd (snd (handle_file_transfer comm_size ts fn fsz n source ch fs)))
         = map (task_msg source)
             (assign_loop (save_path ''mpi_uploads'' ts fn)
                (n div length sel) (n mod length sel) 0 0 sel)"
proof -
  let ?ws = "filter (\<lambda>i. i \<noteq> source) [1..<comm_size]"
  let ?fp = "save_path ''mpi_uploads'' ts fn"
  have ne: "sel \<noteq> []" using assms(1) by (cases ?ws) (auto simp add: sel_def min_def)
  obtain oc fs' sent' where c: "coordinate_parallel_transfer ch source sel ?fp n fs = (oc, fs', sent')"
    by (cases "coordinate_parallel_transfer ch source sel ?fp n fs") auto
  have sent': "sent' = map (task_msg source)
      (assign_loop ?fp (n div length sel) (n mod length sel) 0 0 sel)"
    using coordinate_parallel_transfer_sent [OF ne, of ch source ?fp n fs] c by simp
  have f: "filter (\<lambda>m. fst (snd m) = Tag 30) sent' = sent'"
    unfolding sent' by (rule filter_task_msgs)
  show ?thesis
    using assms(1) c f sent'
    by (cases oc) (simp_all add: handle_file_transfer_def Let_def sel_def complete_msg_def)
qed

lemma master_process_transfer_ready:
  "snd (snd (master_process_transfer comm_size ts source fn fsz n ch fs)) ! 0
     = (Rank source, Tag 2, PDict (ready_srv (save_path ''mpi_uploads'' ts fn)))"
  by (simp add: master_process_transfer_def Let_def split: prod.splits outcome.splits)

text \<open>
  Claim C5 as stated fails: for two chunks and the workers 2 and 3 the coordinator of
  \<^verbatim>\<open>file_transfer.py\<close> dispatches the ranges \<^verbatim>\<open>(2, 0, 1)\<close> and \<^verbatim>\<open>(3, 1, 2)\<close>, and its ready
  message carries no list of such entries; neither does the ready message of \<^verbatim>\<open>server.py\<close>.
\<close>

theorem ready_response_without_ranges:
  "snd (snd (handle_file_transfer 4 ''t'' ''a.txt'' 3 2 1 two_chunks Map.empty)) =
     [(Rank 1, Tag 20, PDict (ready_parallel [2, 3] 2)),
      task_msg 1 (2, 0, 1, ''mpi_uploads/received_t_a.txt.part2''),
      task_msg 1 (3, 1, 2, ''mpi_uploads/received_t_a.txt.part3''),
      complete_msg 1 21]
   \<and> \<not> carries (ready_parallel [2, 3] 2)
         (spec_worker_ranges [(2, 0, 1, ''mpi_uploads/received_t_a.txt.part2''),
                              (3, 1, 2, ''mpi_uploads/received_t_a.txt.part3'')])
   \<and> snd (snd (master_process_transfer 4 ''t'' 1 ''a.txt'' 3 2 two_chunks_srv Map.empty)) ! 0 =
       (Rank 1, Tag 2, PDict (ready_srv ''mpi_uploads/received_t_a.txt''))
   \<and> \<not> carries (ready_srv ''mpi_uploads/received_t_a.txt'')
         (spec_worker_ranges [(2, 0, 1, ''mpi_uploads/received_t_a.txt.part2''),
                              (3, 1, 2, ''mpi_uploads/received_t_a.txt.part3'')])"
  by (simp add: handle_file_transfer_def coordinate_parallel_transfer_def save_path_def Let_def
        task_msg_def task_dict_def worker_receive_def part_path_def str_nat.simps
        complete_msg_def upt_conv_Cons two_chunks_def ready_parallel_def carries_def
        spec_worker_ranges_def master_process_transfer_def ready_srv_def two_chunks_srv_def
        work_msg_def work_data_dict_def worker_receive_srv_def numeral_2_eq_2 [symmetric])

text \<open>
  Claim C5, amended. The ready message of \<^verbatim>\<open>handle_file_transfer\<close> is the first message sent.
  In Direct mode it is \<^verbatim>\<open>{status: ready, method: direct}\<close> and no assignment is sent. In
  Parallel mode it carries the method, the selected workers in order and \<^verbatim>\<open>num_chunks\<close>, and
  the assignments sent (tag 30) are exactly the partition computed from these two fields.
  The ready message of \<^verbatim>\<open>server.py\<close> carries the status and the file path only.
\<close>

theorem ready_response_contents:
  "let ws = filter (\<lambda>i. i \<noteq> source) [1..<comm_size];
       sel = take (min (length ws) n) ws;
       fp = save_path ''mpi_uploads'' ts fn;
       sent = snd (snd (handle_file_transfer comm_size ts fn fsz n source ch fs))
   in (if ws = [] \<or> n < 2
       then sent ! 0 = (Rank source, Tag 20, PDict ready_direct)
          \<and> filter (\<lambda>m. fst (snd m) = Tag 30) sent = []
       else sent ! 0 = (Rank source, Tag 20, PDict (ready_parallel sel n))
          \<and> filter (\<lambda>m. fst (snd m) = Tag 30) sent
              = map (task_msg source)
                  (assign_loop fp (n div length sel) (n mod length sel) 0 0 sel))
    \<and> snd (snd (master_process_transfer comm_size ts source fn fsz n ch fs)) ! 0
        = (Rank source, Tag 2, PDict (ready_srv fp))"
  unfolding Let_def
  using handle_file_transfer_direct_sent [of source comm_size n ts fn fsz ch fs]
    handle_file_transfer_parallel_sent [of source comm_size n ts fn fsz ch fs]
    master_process_transfer_ready [of comm_size ts source fn fsz n ch fs]
  by (simp only: split: if_split) blast

theorem ready_response_contents_witness:
  "snd (snd (handle_file_transfer 4 ''t'' ''a.txt'' 3 2 1 two_chunks Map.empty)) ! 0
     = (Rank 1, Tag 20, PDict (ready_parallel [2, 3] 2))
   \<and> filter (\<lambda>m. fst (snd m) = Tag 30)
       (snd (snd (handle_file_transfer 4 ''t'' ''a.txt'' 3 2 1 two_chunks Map.empty)))
     = map (task_msg 1) (assign_loop ''mpi_uploads/received_t_a.txt'' 1 0 0 0 [2, 3])
   \<and> snd (snd (handle_file_transfer 4 ''t'' ''a.txt'' 0 0 1 Map.empty Map.empty)) ! 0
     = (Rank 1, Tag 20, PDict ready_direct)
   \<and> snd (snd (master_process_transfer 4 ''t'' 1 ''a.txt'' 3 2 two_chunks Map.empty)) ! 0
     = (Rank 1, Tag 2, PDict (ready_srv ''mpi_uploads/received_t_a.txt''))"
proof -
  have ws: "filter (\<lambda>i. i \<noteq> 1) [1..<4] = [2, 3::nat]"
    by (simp add: upt_conv_Cons numeral_2_eq_2 [symmetric] numeral_3_eq_3 [symmetric])
  have sel: "take (min (length [2, 3::nat]) 2) [2, 3::nat] = [2, 3]" by simp
  have sel0: "take (min (length [2, 3::nat]) 0) [2, 3::nat] = []" by simp
  have dm: "2 div length [2::nat, 3] = 1" "2 mod length [2::nat, 3] = 0"
    by (simp_all add: numeral_2_eq_2 [symmetric])
  have fp: "save_path ''mpi_uploads'' ''t'' ''a.txt'' = ''mpi_uploads/received_t_a.txt''"
    by (simp add: save_path_def)
  note t1 = ready_response_contents [where source = 1 and comm_size = 4 and n = 2
      and ts = "''t''" and fn = "''a.txt''" and fsz = 3 and ch = two_chunks and fs = Map.empty,
      unfolded Let_def ws sel dm fp]
  note t2 = ready_response_contents [where source = 1 and comm_size = 4 and n = 0
      and ts = "''t''" and fn = "''a.txt''" and fsz = 0 and ch = Map.empty and fs = Map.empty,
      unfolded Let_def ws sel0 fp]
  show ?thesis
    using t1 t2 by simp
qed

section \<open>Finishing an RPC transfer whose size does not match\<close>

lemmas rpc_defs = send_file_rpc_def start_transfer_def open_wb_def init_server_def save_path_def
  Let_def upload_chunk_def write_handle_def write_at_def b64encode_sample_def
  b64decode_sample_def status_def finish_transfer_def os_path_getsize_def file_at_def
  finalize_rpc_def

text \<open>
  Claim C8 (size mismatch), on the RPC pair. A file declared with 5 bytes of which 3 arrive:
  \<^verbatim>\<open>finish_transfer\<close> answers with the status \<^verbatim>\<open>'warning'\<close> and removes nothing, but the client's
  \<^verbatim>\<open>send_file\<close>, which has no branch for that status, returns \<^verbatim>\<open>False\<close>, and the transfer stays
  in \<^verbatim>\<open>active_transfers\<close> with its handle closed: the warning branch has no \<^verbatim>\<open>del\<close>. With the
  declared size 3 the same upload returns \<^verbatim>\<open>True\<close> and leaves no entry behind.
\<close>

theorem send_file_rpc_mismatch_fails:
  "fst (finish_transfer ''a.txt_t''
          (snd (upload_chunk b64decode_sample ''a.txt_t'' ''YWJj'' 1
                  (snd (start_transfer ''t'' ''t'' ''a.txt'' 5 init_server)))))
     = Warning 5 3
   \<and> status (Warning 5 3) = ''warning''
   \<and> fst (send_file_rpc b64encode_sample b64decode_sample 65536 ''t'' ''t'' ''a.txt''
            (Some (5, ''abc'')) init_server) = False
   \<and> active_transfers
       (snd (send_file_rpc b64encode_sample b64decode_sample 65536 ''t'' ''t'' ''a.txt''
               (Some (5, ''abc'')) init_server))
     = [''a.txt_t'' \<mapsto> \<lparr>filename = ''a.txt'', filepath = ''uploads/received_t_a.txt'',
                         filesize = 5, received = 3,
                         file_handle = \<lparr>inode = 0, pos = 3, closed = True\<rparr>\<rparr>]
   \<and> file_at
       (files (snd (send_file_rpc b64encode_sample b64decode_sample 65536 ''t'' ''t'' ''a.txt''
                      (Some (5, ''abc'')) init_server)))
       ''uploads/received_t_a.txt''
     = Some ''abc''
   \<and> fst (send_file_rpc b64encode_sample b64decode_sample 65536 ''t'' ''t'' ''a.txt''
            (Some (3, ''abc'')) init_server) = True
   \<and> active_transfers
       (snd (send_file_rpc b64encode_sample b64decode_sample 65536 ''t'' ''t'' ''a.txt''
               (Some (3, ''abc'')) init_server))
     = Map.empty"
  by (simp add: rpc_defs read_chunks_abc_whole numeral_3_eq_3)


text \<open>
  On every input: when the size on disk differs from the declared size, \<^verbatim>\<open>finish_transfer\<close>
  answers with the warning and both sizes, closes the handle, leaves the disk as it is and
  keeps the entry, and the client's final step returns \<^verbatim>\<open>False\<close>; when the sizes agree, the
  entry is deleted and the final step returns \<^verbatim>\<open>True\<close>.
\<close>

lemma size_mismatch_is_warning:
  assumes "active_transfers srv tid = Some t"
      and "os_path_getsize (filepath t) (files srv) = Some actual"
      and "actual \<noteq> filesize t"
  shows "finish_transfer tid srv =
           (Warning (filesize t) actual,
            srv\<lparr>active_transfers :=
                  (active_transfers srv)
                    (tid \<mapsto> t\<lparr>file_handle := (file_handle t)\<lparr>closed := True\<rparr>\<rparr>)\<rparr>)
       \<and> status (fst (finish_transfer tid srv)) = ''warning''
       \<and> files (snd (finish_transfer tid srv)) = files srv
       \<and> tid \<in> dom (active_transfers (snd (finish_transfer tid srv)))
       \<and> finalize_rpc (fst (finish_transfer tid srv)) = False"
  using assms by (simp add: finish_transfer_def Let_def status_def finalize_rpc_def)

lemma size_match_is_success:
  assumes "active_transfers srv tid = Some t"
      and "os_path_getsize (filepath t) (files srv) = Some (filesize t)"
  shows "fst (finish_transfer tid srv) = FinishOk (filepath t) (filesize t)
       \<and> tid \<notin> dom (active_transfers (snd (finish_transfer tid srv)))
       \<and> finalize_rpc (fst (finish_transfer tid srv)) = True"
  using assms by (simp add: finish_transfer_def Let_def status_def finalize_rpc_def)

section \<open>The transfer of \<^verbatim>\<open>file_transfer.py\<close>, end to end\<close>

subsection \<open>Part files have distinct names\<close>

lemma str_nat_nonempty: "str_nat n \<noteq> []"
  by (subst str_nat.simps) simp

lemma digit_inj:
  "a < 10 \<Longrightarrow> b < 10 \<Longrightarrow> ''0123456789'' ! a = ''0123456789'' ! b \<Longrightarrow> a = b"
proof -
  assume a: "a < 10" and b: "b < 10" and eq: "''0123456789'' ! a = ''0123456789'' ! b"
  have d: "distinct ''0123456789''" by simp
  have l: "length ''0123456789'' = 10" by simp
  show "a = b"
    using nth_eq_iff_index_eq [OF d, of a b] a b eq l by simp
qed

lemma str_nat_inj: "str_nat n = str_nat m \<Longrightarrow> n = m"
proof (induction n arbitrary: m rule: str_nat.induct)
  case (1 n)
  show ?case
  proof (cases "n < 10")
    case small_n: True
    show ?thesis
    proof (cases "m < 10")
      case True
      then show ?thesis
        using "1.prems" small_n digit_inj [of n m]
        by (simp add: str_nat.simps [of n] str_nat.simps [of m])
    next
      case False
      then show ?thesis
        using "1.prems" small_n str_nat_nonempty [of "m div 10"]
        by (simp add: str_nat.simps [of n] str_nat.simps [of m])
    qed
  next
    case big_n: False
    show ?thesis
    proof (cases "m < 10")
      case True
      then show ?thesis
        using "1.prems" big_n str_nat_nonempty [of "n div 10"]
        by (simp add: str_nat.simps [of n] str_nat.simps [of m])
    next
      case False
      have eq: "str_nat (n div 10) @ [''0123456789'' ! (n mod 10)]
                = str_nat (m div 10) @ [''0123456789'' ! (m mod 10)]"
        using "1.prems" big_n False
        by (simp add: str_nat.simps [of n] str_nat.simps [of m])
      then have q: "str_nat (n div 10) = str_nat (m div 10)"
        and r: "''0123456789'' ! (n mod 10) = ''0123456789'' ! (m mod 10)"
        by simp_all
      have "n div 10 = m div 10" using "1.IH" [OF big_n q] .
      moreover have "n mod 10 = m mod 10"
        using digit_inj [of "n mod 10" "m mod 10"] r by simp
      ultimately show ?thesis
        by (metis div_mult_mod_eq)
    qed
  qed
qed

lemma part_path_inj: "part_path fp w = part_path fp w' \<Longrightarrow> w = w'"
  by (simp add: part_path_def str_nat_inj)

lemma part_path_neq: "part_path fp w \<noteq> fp"
  by (simp add: part_path_def)


subsection \<open>Chunks, and a channel that delivers them\<close>

lemma concat_read_chunks: "0 < cs \<Longrightarrow> concat (read_chunks cs data) = data"
proof (induction cs data rule: read_chunks.induct)
  case (1 cs data)
  show ?case
  proof (cases "take cs data = []")
    case True
    then have "data = []" using "1.prems" by simp
    then show ?thesis by (simp add: read_chunks.simps)
  next
    case False
    then show ?thesis
      using "1.IH" "1.prems" by (subst read_chunks.simps) simp
  qed
qed

lemma read_chunks_Nil: "read_chunks cs [] = []"
  by (simp add: read_chunks.simps)

text \<open>
  From here on the channel is taken to deliver the chunks: the receive posted for tag
  \<^verbatim>\<open>100 + i\<close> obtains chunk \<^verbatim>\<open>i\<close>, for every chunk of the file.
\<close>

lemma recv_loop_all:
  "\<forall>i\<in>set is. ch (100 + i) = Some (PBytes (chunks ! i)) \<Longrightarrow>
     recv_loop ch is buf = (Completed, buf @ concat (map ((!) chunks) is))"
  by (induction "is" arbitrary: buf) simp_all

lemma receive_file_direct_all:
  "\<forall>i<length chunks. ch (100 + i) = Some (PBytes (chunks ! i)) \<Longrightarrow>
     receive_file_direct ch fp (length chunks) fs = (Completed, fs(fp \<mapsto> concat chunks))"
  using recv_loop_all [of "[0..<length chunks]" ch chunks "[]"]
  by (simp add: receive_file_direct_def map_nth)

lemma worker_receive_task:
  "\<forall>i<length chunks. ch (100 + i) = Some (PBytes (chunks ! i)) \<Longrightarrow> e \<le> length chunks \<Longrightarrow>
     worker_receive ch (task_dict src (w, s, e, p)) fs =
       (Completed, fs(p \<mapsto> concat (map ((!) chunks) [s..<e])))"
  using recv_loop_all [of "[s..<e]" ch chunks "[]"]
  by (simp add: worker_receive_def task_dict_def)


subsection \<open>Reassembly\<close>

lemma reassemble_all:
  "distinct (map (\<lambda>(w, s, e, p). p) as) \<Longrightarrow>
   \<forall>(w, s, e, p)\<in>set as. fs p \<noteq> None \<Longrightarrow>
     reassemble as fs out =
       (Completed,
        (\<lambda>q. if q \<in> (\<lambda>(w, s, e, p). p) ` set as then None else fs q),
        out @ concat (map (\<lambda>(w, s, e, p). case fs p of None \<Rightarrow> [] | Some d \<Rightarrow> d) as))"
proof (induction as arbitrary: fs out)
  case Nil
  show ?case by simp
next
  case (Cons a as)
  obtain w s e p where a: "a = (w, s, e, p)" by (cases a)
  obtain d where d: "fs p = Some d" using Cons.prems(2) a by auto
  have notin: "p \<notin> (\<lambda>(w, s, e, p). p) ` set as" using Cons.prems(1) a by auto
  have dist: "distinct (map (\<lambda>(w, s, e, p). p) as)" using Cons.prems(1) by simp
  have ex: "\<forall>(w, s, e, p')\<in>set as. (fs(p := None)) p' \<noteq> None"
    using Cons.prems(2) notin by (auto simp add: rev_image_eqI)
  have same: "map (\<lambda>(w, s, e, p'). case (fs(p := None)) p' of None \<Rightarrow> [] | Some d \<Rightarrow> d) as
            = map (\<lambda>(w, s, e, p'). case fs p' of None \<Rightarrow> [] | Some d \<Rightarrow> d) as"
    using notin by (intro map_cong refl) (auto simp add: rev_image_eqI)
  have feq: "(\<lambda>q. if q \<in> (\<lambda>(w, s, e, p). p) ` set as then None else (fs(p := None)) q)
           = (\<lambda>q. if q \<in> (\<lambda>(w, s, e, p). p) ` set (a # as) then None else fs q)"
    by (auto simp add: fun_eq_iff a)
  note ih = Cons.IH [OF dist ex, of "out @ d", unfolded same feq]
  have "reassemble (a # as) fs out = reassemble as (fs(p := None)) (out @ d)"
    by (simp add: a d)
  also have "\<dots> = (Completed,
        (\<lambda>q. if q \<in> (\<lambda>(w, s, e, p). p) ` set (a # as) then None else fs q),
        (out @ d) @ concat (map (\<lambda>(w, s, e, p). case fs p of None \<Rightarrow> [] | Some d \<Rightarrow> d) as))"
    by (rule ih)
  finally show ?case
    by (simp add: a d)
qed

lemma run_workers_dom:
  "run_workers ch (map (task_dict src) as) fs = (Completed, fs1) \<Longrightarrow>
     (\<forall>(w, s, e, p)\<in>set as. fs1 p \<noteq> None) \<and> (\<forall>q. fs q \<noteq> None \<longrightarrow> fs1 q \<noteq> None)"
proof (induction as arbitrary: fs)
  case Nil
  then show ?case by simp
next
  case (Cons a as)
  obtain w s e p where a: "a = (w, s, e, p)" by (cases a)
  obtain oc buf where r: "recv_loop ch [s..<e] [] = (oc, buf)"
    by (cases "recv_loop ch [s..<e] []")
  have wr: "worker_receive ch (task_dict src a) fs = (oc, fs(p \<mapsto> buf))"
    by (simp add: worker_receive_def task_dict_def a r)
  have oc: "oc = Completed"
    using Cons.prems wr by (cases oc) simp_all
  have rest: "run_workers ch (map (task_dict src) as) (fs(p \<mapsto> buf)) = (Completed, fs1)"
    using Cons.prems wr oc by simp
  show ?case
    using Cons.IH [OF rest] by (auto simp add: a)
qed

lemma assign_loop_starts_sorted:
  "sorted (map (\<lambda>(w, s, e, p). s) (assign_loop fp b r i st ws))
   \<and> (\<forall>(w, s, e, p)\<in>set (assign_loop fp b r i st ws). st \<le> s)"
proof (induction ws arbitrary: i st)
  case Nil
  show ?case by simp
next
  case (Cons w ws)
  show ?case
    using Cons.IH [of "Suc i" "st + (b + (if i < r then 1 else 0))"]
    by (fastforce simp add: Let_def)
qed

lemma assign_loop_paths:
  "map (\<lambda>(w, s, e, p). p) (assign_loop fp b r i st ws) = map (part_path fp) ws"
  by (induction ws arbitrary: i st) (simp_all add: Let_def)

lemma distinct_part_paths: "distinct ws \<Longrightarrow> distinct (map (part_path fp) ws)"
  by (simp add: distinct_map inj_on_def part_path_inj)

lemma coordinate_parallel_transfer_completed:
  assumes ne: "workers \<noteq> []" and dist: "distinct workers"
    and run: "run_workers ch (map (task_dict source)
                (assign_loop fp (n div length workers) (n mod length workers) 0 0 workers)) fs
              = (Completed, fs1)"
  shows "coordinate_parallel_transfer ch source workers fp n fs =
           (Completed,
            (\<lambda>q. if q = fp then
                    Some (concat (map (\<lambda>(w, s, e, p). case fs1 p of None \<Rightarrow> [] | Some d \<Rightarrow> d)
                       (assign_loop fp (n div length workers) (n mod length workers) 0 0 workers)))
                  else if q \<in> part_path fp ` set workers then None
                  else fs1 q),
            map (task_msg source)
              (assign_loop fp (n div length workers) (n mod length workers) 0 0 workers))"
proof -
  let ?as = "assign_loop fp (n div length workers) (n mod length workers) 0 0 workers"
  have srt: "sort_key (\<lambda>(w, s, e, p). s) ?as = ?as"
    using assign_loop_starts_sorted [of fp "n div length workers" "n mod length workers" 0 0 workers]
    by (intro sort_key_id_if_sorted) simp
  have paths: "map (\<lambda>(w, s, e, p). p) ?as = map (part_path fp) workers"
    by (rule assign_loop_paths)
  have d: "distinct (map (\<lambda>(w, s, e, p). p) ?as)"
    unfolding paths using dist by (rule distinct_part_paths)
  have img: "(\<lambda>(w, s, e, p). p) ` set ?as = part_path fp ` set workers"
    using paths by (metis set_map)
  have nofp: "fp \<notin> (\<lambda>(w, s, e, p). p) ` set ?as"
    unfolding img using part_path_neq [of fp] by (metis imageE)
  have ex: "\<forall>(w, s, e, p)\<in>set ?as. (fs1(fp \<mapsto> [])) p \<noteq> None"
    using run_workers_dom [OF run] by auto
  have same: "map (\<lambda>(w, s, e, p). case (fs1(fp \<mapsto> [])) p of None \<Rightarrow> [] | Some d \<Rightarrow> d) ?as
            = map (\<lambda>(w, s, e, p). case fs1 p of None \<Rightarrow> [] | Some d \<Rightarrow> d) ?as"
    using nofp by (intro map_cong refl) (auto simp add: rev_image_eqI)
  note re = reassemble_all [OF d ex, of "[]", unfolded same img]
  have cp: "coordinate_parallel_transfer ch source workers fp n fs =
              (case reassemble ?as (fs1(fp \<mapsto> [])) [] of
                 (oc, fs2, out) \<Rightarrow> (oc, fs2(fp \<mapsto> out), map (task_msg source) ?as))"
    using ne run by (simp add: coordinate_parallel_transfer_def Let_def srt)
  have feq: "(\<lambda>q. if q \<in> part_path fp ` set workers then None else (fs1(fp \<mapsto> [])) q)
               (fp \<mapsto> concat (map (\<lambda>(w, s, e, p). case fs1 p of None \<Rightarrow> [] | Some d \<Rightarrow> d) ?as))
           = (\<lambda>q. if q = fp then
                    Some (concat (map (\<lambda>(w, s, e, p). case fs1 p of None \<Rightarrow> [] | Some d \<Rightarrow> d) ?as))
                  else if q \<in> part_path fp ` set workers then None
                  else fs1 q)"
    by (rule ext) simp
  show ?thesis
    unfolding cp re using feq by simp
qed


subsection \<open>The workers' writes\<close>

lemma run_workers_chunks:
  "\<forall>i<length chunks. ch (100 + i) = Some (PBytes (chunks ! i)) \<Longrightarrow>
   \<forall>(w, s, e, p)\<in>set as. e \<le> length chunks \<Longrightarrow>
     run_workers ch (map (task_dict src) as) fs =
       (Completed,
        fs ++ map_of (rev (map (\<lambda>(w, s, e, p). (p, concat (map ((!) chunks) [s..<e]))) as)))"
proof (induction as arbitrary: fs)
  case Nil
  show ?case by simp
next
  case (Cons a as)
  obtain w s e p where a: "a = (w, s, e, p)" by (cases a)
  have e: "e \<le> length chunks" using Cons.prems(2) a by simp
  have rest: "\<forall>(w, s, e, p)\<in>set as. e \<le> length chunks" using Cons.prems(2) by simp
  show ?case
    using Cons.IH [OF Cons.prems(1) rest]
    by (simp add: a worker_receive_task [OF Cons.prems(1) e])
qed

lemma written_frame:
  "q \<notin> (\<lambda>(w, s, e, p). p) ` set as \<Longrightarrow>
     (fs ++ map_of (rev (map (\<lambda>(w, s, e, p). (p, g s e)) as))) q = fs q"
proof -
  assume "q \<notin> (\<lambda>(w, s, e, p). p) ` set as"
  then have "q \<notin> fst ` set (rev (map (\<lambda>(w, s, e, p). (p, g s e)) as))"
    by (auto simp add: image_iff split_def)
  then have "map_of (rev (map (\<lambda>(w, s, e, p). (p, g s e)) as)) q = None"
    by (simp add: map_of_eq_None_iff)
  then show ?thesis by (simp add: map_add_def)
qed

lemma written_lookup:
  "distinct (map (\<lambda>(w, s, e, p). p) as) \<Longrightarrow> (w, s, e, p) \<in> set as \<Longrightarrow>
     (fs ++ map_of (rev (map (\<lambda>(w, s, e, p). (p, g s e)) as))) p = Some (g s e)"
proof -
  assume d: "distinct (map (\<lambda>(w, s, e, p). p) as)" and m: "(w, s, e, p) \<in> set as"
  have keys: "fst \<circ> (\<lambda>(w, s, e, p). (p, g s e)) = (\<lambda>(w, s, e, p). p)"
    by (auto simp add: fun_eq_iff)
  have "map fst (rev (map (\<lambda>(w, s, e, p). (p, g s e)) as)) = rev (map (\<lambda>(w, s, e, p). p) as)"
    by (simp only: rev_map [symmetric] map_map keys)
  then have "distinct (map fst (rev (map (\<lambda>(w, s, e, p). (p, g s e)) as)))"
    using d by (simp only: distinct_rev)
  moreover have "(p, g s e) \<in> set (rev (map (\<lambda>(w, s, e, p). (p, g s e)) as))"
    using m by (auto simp add: image_iff intro!: bexI [of _ "(w, s, e, p)"])
  ultimately have "map_of (rev (map (\<lambda>(w, s, e, p). (p, g s e)) as)) p = Some (g s e)"
    by (rule map_of_is_SomeI)
  then show ?thesis by (simp add: map_add_def)
qed

lemma concat_ranges:
  "concat (map (\<lambda>(w, s, e, p). concat (map f [s..<e])) as) =
     concat (map f (concat (map (\<lambda>(w, s, e, p). [s..<e]) as)))"
  by (induction as) auto

lemma assign_loop_cover:
  "concat (map (\<lambda>(w, s, e, p). [s..<e]) (assign_loop fp b r 0 0 ws)) =
     [0..<length ws * b + min (length ws) r]"
  using ranges_cover [of b r 0 ws]
  by (simp add: assign_loop_0 split_def o_def)

lemma assign_loop_ends:
  "\<forall>(w, s, e, p)\<in>set (assign_loop fp b r 0 0 ws). e \<le> length ws * b + min (length ws) r"
proof -
  have "Suc j * b + min (Suc j) r \<le> length ws * b + min (length ws) r" if "j < length ws" for j
    using that by (intro add_mono mult_le_mono1 min.mono) simp_all
  then show ?thesis
    by (auto simp add: assign_loop_0 in_set_enumerate_eq simp del: mult_Suc)
qed

lemma div_mod_total: "0 < k \<Longrightarrow> k * (n div k) + min k (n mod k) = (n::nat)"
  by (simp add: min_absorb2 mod_le_divisor)

lemma coordinate_parallel_transfer_chunks:
  assumes ne: "workers \<noteq> []" and dist: "distinct workers"
    and delivered: "\<forall>i<length chunks. ch (100 + i) = Some (PBytes (chunks ! i))"
  shows "coordinate_parallel_transfer ch source workers fp (length chunks) fs =
           (Completed,
            (\<lambda>q. if q = fp then Some (concat chunks)
                  else if q \<in> part_path fp ` set workers then None
                  else fs q),
            map (task_msg source)
              (assign_loop fp (length chunks div length workers)
                 (length chunks mod length workers) 0 0 workers))"
proof -
  let ?n = "length chunks"
  let ?b = "?n div length workers" and ?r = "?n mod length workers"
  let ?as = "assign_loop fp ?b ?r 0 0 workers"
  let ?g = "\<lambda>s e. concat (map ((!) chunks) [s..<e])"
  let ?fs1 = "fs ++ map_of (rev (map (\<lambda>(w, s, e, p). (p, ?g s e)) ?as))"
  have k: "0 < length workers" using ne by simp
  have total: "length workers * ?b + min (length workers) ?r = ?n"
    using k by (rule div_mod_total)
  have ends: "\<forall>(w, s, e, p)\<in>set ?as. e \<le> ?n"
    using assign_loop_ends [of fp ?b ?r workers] total by (simp add: mult.commute)
  have run: "run_workers ch (map (task_dict source) ?as) fs = (Completed, ?fs1)"
    using delivered ends by (rule run_workers_chunks)
  have paths: "map (\<lambda>(w, s, e, p). p) ?as = map (part_path fp) workers"
    by (rule assign_loop_paths)
  have d: "distinct (map (\<lambda>(w, s, e, p). p) ?as)"
    unfolding paths using dist by (rule distinct_part_paths)
  have img: "(\<lambda>(w, s, e, p). p) ` set ?as = part_path fp ` set workers"
    using paths by (metis set_map)
  have contents: "map (\<lambda>(w, s, e, p). case ?fs1 p of None \<Rightarrow> [] | Some d \<Rightarrow> d) ?as
                = map (\<lambda>(w, s, e, p). ?g s e) ?as"
    by (intro map_cong refl) (auto simp add: written_lookup [OF d])
  have "concat (map (\<lambda>(w, s, e, p). ?g s e) ?as) = concat (map ((!) chunks) [0..<?n])"
    using assign_loop_cover [of fp ?b ?r workers] total
    by (simp add: concat_ranges mult.commute)
  then have whole: "concat (map (\<lambda>(w, s, e, p). ?g s e) ?as) = concat chunks"
    by (simp add: map_nth)
  have frame: "?fs1 q = fs q" if "q \<notin> part_path fp ` set workers" for q
    using that written_frame [of q ?as fs ?g] by (simp add: img)
  have feq: "(\<lambda>q. if q = fp then Some (concat chunks)
                  else if q \<in> part_path fp ` set workers then None else ?fs1 q)
           = (\<lambda>q. if q = fp then Some (concat chunks)
                  else if q \<in> part_path fp ` set workers then None else fs q)"
    by (rule ext) (simp add: frame)
  show ?thesis
    using coordinate_parallel_transfer_completed [OF ne dist run]
    by (simp only: contents whole feq)
qed


subsection \<open>The whole transfer\<close>

lemma available_workers:
  "set (filter (\<lambda>i. i \<noteq> source) [1..<comm_size]) = {1..<comm_size} - {source}
   \<and> sorted (filter (\<lambda>i. i \<noteq> source) [1..<comm_size])
   \<and> distinct (filter (\<lambda>i. i \<noteq> source) [1..<comm_size])"
  by (auto simp add: sorted_wrt_filter)

lemma selected_workers:
  "distinct (take k (filter (\<lambda>i. i \<noteq> source) [1..<comm_size]))
   \<and> source \<notin> set (take k (filter (\<lambda>i. i \<noteq> source) [1..<comm_size]))"
  by (auto dest: in_set_takeD)

lemma handle_file_transfer_chunks:
  assumes delivered: "\<forall>i<length chunks. ch (100 + i) = Some (PBytes (chunks ! i))"
  shows "handle_file_transfer comm_size ts fn fsz (length chunks) source ch fs =
     (let ws = filter (\<lambda>i. i \<noteq> source) [1..<comm_size];
          sel = take (min (length ws) (length chunks)) ws;
          fp = save_path ''mpi_uploads'' ts fn
      in if ws = [] \<or> length chunks < 2
         then (Completed, fs(fp \<mapsto> concat chunks),
               [(Rank source, Tag 20, PDict ready_direct), complete_msg source 21])
         else (Completed,
               (\<lambda>q. if q = fp then Some (concat chunks)
                     else if q \<in> part_path fp ` set sel then None else fs q),
               (Rank source, Tag 20, PDict (ready_parallel sel (length chunks)))
                 # map (task_msg source)
                     (assign_loop fp (length chunks div length sel)
                        (length chunks mod length sel) 0 0 sel)
                 @ [complete_msg source 21]))"
proof -
  let ?ws = "filter (\<lambda>i. i \<noteq> source) [1..<comm_size]"
  let ?sel = "take (min (length ?ws) (length chunks)) ?ws"
  show ?thesis
  proof (cases "?ws = [] \<or> length chunks < 2")
    case True
    then show ?thesis
      by (simp add: handle_file_transfer_def Let_def receive_file_direct_all [OF delivered])
  next
    case False
    then have ne: "?sel \<noteq> []" by (cases ?ws) (auto simp add: min_def)
    have dist: "distinct ?sel" using selected_workers [of _ source comm_size] by blast
    note c = coordinate_parallel_transfer_chunks [OF ne dist delivered, of source
        "save_path ''mpi_uploads'' ts fn" fs]
    show ?thesis
      unfolding handle_file_transfer_def Let_def c
      using False by simp
  qed
qed

text \<open>
  The round trip of claim C1 holds for the receiving side of \<^verbatim>\<open>file_transfer.py\<close>: for a
  positive chunk size, every file, every world size and every sender rank, if the chunks the
  sender reads from the file are delivered, then \<^verbatim>\<open>handle_file_transfer\<close> completes, the file
  at the saved path has exactly the bytes of the source, and the last message is the
  completion sent to the sender.
\<close>

theorem round_trip:
  assumes "0 < chunk_size"
      and "\<forall>i<length (read_chunks chunk_size data).
             ch (100 + i) = Some (PBytes (read_chunks chunk_size data ! i))"
  shows "fst (handle_file_transfer comm_size ts fn (length data)
                (length (read_chunks chunk_size data)) source ch fs) = Completed
       \<and> fst (snd (handle_file_transfer comm_size ts fn (length data)
                (length (read_chunks chunk_size data)) source ch fs))
           (save_path ''mpi_uploads'' ts fn) = Some data
       \<and> last (snd (snd (handle_file_transfer comm_size ts fn (length data)
                (length (read_chunks chunk_size data)) source ch fs)))
           = complete_msg source 21"
  using concat_read_chunks [OF assms(1), of data]
  by (simp add: handle_file_transfer_chunks [OF assms(2)] Let_def)

lemma read_chunks_abc: "read_chunks 2 ''abc'' = [''ab'', ''c'']"
  by (simp add: read_chunks.simps)

theorem round_trip_witness:
  "(0::nat) < 2
   \<and> two_chunks 100 = Some (PBytes ''ab'') \<and> two_chunks 101 = Some (PBytes ''c'')
   \<and> fst (handle_file_transfer 4 ''t'' ''a.txt'' 3 2 1 two_chunks Map.empty) = Completed
   \<and> fst (snd (handle_file_transfer 4 ''t'' ''a.txt'' 3 2 1 two_chunks Map.empty))
        ''mpi_uploads/received_t_a.txt'' = Some ''abc''"
proof -
  have h: "(0::nat) < 2" by simp
  have d0: "two_chunks 100 = Some (PBytes ''ab'')" by (simp add: two_chunks_def)
  have d1: "two_chunks 101 = Some (PBytes ''c'')" by (simp add: two_chunks_def)
  have d: "\<forall>i<length (read_chunks 2 ''abc'').
             two_chunks (100 + i) = Some (PBytes (read_chunks 2 ''abc'' ! i))"
    by (simp add: read_chunks_abc two_chunks_def less_Suc_eq)
  have len: "length ''abc'' = 3" "length [''ab'', ''c''] = 2" by simp_all
  note t = round_trip [OF h d, of 4 "''t''" "''a.txt''" 1 Map.empty, unfolded read_chunks_abc len]
  have p: "save_path ''mpi_uploads'' ''t'' ''a.txt'' = ''mpi_uploads/received_t_a.txt''"
    by (simp add: save_path_def)
  show ?thesis using h d0 d1 t [unfolded p] by blast
qed

text \<open>
  The empty file of claim C7 on \<^verbatim>\<open>file_transfer.py\<close>: with \<^verbatim>\<open>num_chunks = 0\<close> the coordinator
  answers with Direct readiness, creates the empty file, sends the completion and nothing else,
  whatever the number of workers.
\<close>

theorem empty_file_direct:
  "read_chunks chunk_size [] = []
   \<and> handle_file_transfer comm_size ts fn 0 0 source ch fs =
     (Completed, fs(save_path ''mpi_uploads'' ts fn \<mapsto> []),
      [(Rank source, Tag 20, PDict ready_direct), complete_msg source 21])"
  by (simp add: handle_file_transfer_def receive_file_direct_def Let_def read_chunks_Nil)

lemma assign_loop_workers: "map fst (assign_loop fp b r i st ws) = ws"
  by (induction ws arbitrary: i st) (simp_all add: Let_def)

text \<open>
  The choice of claim C3 on \<^verbatim>\<open>file_transfer.py\<close>: the available workers are the ranks from 1
  to \<^verbatim>\<open>size - 1\<close> other than the source, in ascending order; the ready message says Direct
  exactly when there is none or \<^verbatim>\<open>num_chunks < 2\<close>, and Parallel with the first
  \<^verbatim>\<open>min(len(workers), num_chunks)\<close> of them otherwise; the source is never selected, and the
  assignments go to the selected workers, in that order.
\<close>

theorem decide_strategy:
  "let ws = filter (\<lambda>i. i \<noteq> source) [1..<comm_size];
       sel = take (min (length ws) n) ws;
       sent = snd (snd (handle_file_transfer comm_size ts fn fsz n source ch fs))
   in ((sent ! 0 = (Rank source, Tag 20, PDict ready_direct)) = (ws = [] \<or> n < 2))
    \<and> ((sent ! 0 = (Rank source, Tag 20, PDict (ready_parallel sel n))) = (\<not> (ws = [] \<or> n < 2)))
    \<and> set ws = {1..<comm_size} - {source} \<and> sorted ws \<and> distinct ws
    \<and> length sel = min (length ws) n \<and> source \<notin> set sel
    \<and> map fst (filter (\<lambda>m. fst (snd m) = Tag 30) sent)
        = (if ws = [] \<or> n < 2 then [] else map Rank sel)"
proof -
  let ?ws = "filter (\<lambda>i. i \<noteq> source) [1..<comm_size]"
  let ?sel = "take (min (length ?ws) n) ?ws"
  let ?sent = "snd (snd (handle_file_transfer comm_size ts fn fsz n source ch fs))"
  have differ: "ready_direct \<noteq> ready_parallel ?sel n"
    by (simp add: ready_direct_def ready_parallel_def)
  have len: "length ?sel = min (length ?ws) n" by simp
  have ranks: "map (fst \<circ> task_msg source) (assign_loop fp b r i st ws) = map Rank ws"
    for fp b r i st ws
    using assign_loop_workers [of fp b r i st ws, THEN arg_cong, of "map Rank"]
    by (simp add: task_msg_def o_def)
  show ?thesis
  proof (cases "?ws = [] \<or> n < 2")
    case True
    note d = handle_file_transfer_direct_sent [OF True, of ts fn fsz ch fs]
    show ?thesis
      unfolding Let_def
      using True d differ available_workers [of source comm_size]
        selected_workers [of "min (length ?ws) n" source comm_size] len
      by (simp del: length_take)
  next
    case False
    note p = handle_file_transfer_parallel_sent [OF False, of ts fn fsz ch fs]
    show ?thesis
      unfolding Let_def
      using False p differ available_workers [of source comm_size]
        selected_workers [of "min (length ?ws) n" source comm_size] len
      by (simp add: ranks del: length_take)
  qed
qed


text \<open>
  The reassembly of claim C4 on \<^verbatim>\<open>file_transfer.py\<close>: once every worker has completed, the
  coordinator returns, the assignments sorted by start are in ascending order, the output file
  is the concatenation of the part files in that order, every part file is gone, and no other
  file has changed.
\<close>

theorem reassembly_concatenates_and_deletes:
  assumes "workers \<noteq> []" and "distinct workers"
    and "run_workers ch (map (task_dict source)
           (assign_loop fp (n div length workers) (n mod length workers) 0 0 workers)) fs
         = (Completed, fs1)"
  shows "let as = assign_loop fp (n div length workers) (n mod length workers) 0 0 workers;
             ordered = sort_key (\<lambda>(w, s, e, p). s) as;
             result = coordinate_parallel_transfer ch source workers fp n fs
         in fst result = Completed
          \<and> sorted (map (\<lambda>(w, s, e, p). s) ordered)
          \<and> fst (snd result) fp =
              Some (concat (map (\<lambda>(w, s, e, p). case fs1 p of None \<Rightarrow> [] | Some d \<Rightarrow> d) ordered))
          \<and> (\<forall>(w, s, e, p)\<in>set as. fs1 p \<noteq> None \<and> fst (snd result) p = None)
          \<and> (\<forall>q. q \<noteq> fp \<and> q \<notin> (\<lambda>(w, s, e, p). p) ` set as \<longrightarrow> fst (snd result) q = fs1 q)"
proof -
  let ?as = "assign_loop fp (n div length workers) (n mod length workers) 0 0 workers"
  have srt: "sort_key (\<lambda>(w, s, e, p). s) ?as = ?as"
    using assign_loop_starts_sorted [of fp "n div length workers" "n mod length workers" 0 0 workers]
    by (intro sort_key_id_if_sorted) simp
  have sorted: "sorted (map (\<lambda>(w, s, e, p). s) ?as)"
    using assign_loop_starts_sorted [of fp "n div length workers" "n mod length workers" 0 0 workers]
    by simp
  have img: "(\<lambda>(w, s, e, p). p) ` set ?as = part_path fp ` set workers"
    using assign_loop_paths [of fp "n div length workers" "n mod length workers" 0 0 workers]
    by (metis set_map)
  have nofp: "p \<noteq> fp" if "(w, s, e, p) \<in> set ?as" for w s e p
  proof -
    have "p \<in> part_path fp ` set workers" using that img by force
    then show ?thesis using part_path_neq [of fp] by auto
  qed
  have inimg: "p \<in> part_path fp ` set workers" if "(w, s, e, p) \<in> set ?as" for w s e p
    using that img by force
  note c = coordinate_parallel_transfer_completed [OF assms]
  note dom = run_workers_dom [OF assms(3)]
  show ?thesis
    unfolding Let_def srt c img
    using sorted dom nofp inimg by auto
qed

theorem reassembly_concatenates_and_deletes_witness:
  "[2::nat, 3] \<noteq> [] \<and> distinct [2::nat, 3]
   \<and> run_workers two_chunks (map (task_dict 1) (assign_loop ''f'' 1 0 0 0 [2, 3])) Map.empty
       = (Completed, [''f.part2'' \<mapsto> ''ab'', ''f.part3'' \<mapsto> ''c''])
   \<and> fst (coordinate_parallel_transfer two_chunks 1 [2, 3] ''f'' 2 Map.empty) = Completed
   \<and> fst (snd (coordinate_parallel_transfer two_chunks 1 [2, 3] ''f'' 2 Map.empty)) ''f''
       = Some ''abc''
   \<and> fst (snd (coordinate_parallel_transfer two_chunks 1 [2, 3] ''f'' 2 Map.empty)) ''f.part2''
       = None
   \<and> fst (snd (coordinate_parallel_transfer two_chunks 1 [2, 3] ''f'' 2 Map.empty)) ''f.part3''
       = None"
proof -
  have h1: "[2::nat, 3] \<noteq> []" by simp
  have h2: "distinct [2::nat, 3]" by simp
  have as: "assign_loop ''f'' 1 0 0 0 [2, 3] = [(2, 0, 1, ''f.part2''), (3, 1, 2, ''f.part3'')]"
    by (simp add: Let_def part_path_def str_nat.simps numeral_2_eq_2 [symmetric])
  have dm: "2 div length [2::nat, 3] = 1" "2 mod length [2::nat, 3] = 0"
    by (simp_all add: numeral_2_eq_2 [symmetric])
  have h3: "run_workers two_chunks (map (task_dict 1) (assign_loop ''f'' 1 0 0 0 [2, 3])) Map.empty
              = (Completed, [''f.part2'' \<mapsto> ''ab'', ''f.part3'' \<mapsto> ''c''])"
    by (simp add: Let_def part_path_def str_nat.simps task_dict_def worker_receive_def
          two_chunks_def upt_conv_Cons)
  note t = reassembly_concatenates_and_deletes
    [where workers = "[2, 3]" and n = 2 and fp = "''f''" and ch = two_chunks and source = 1
       and fs = Map.empty, unfolded dm, OF h1 h2 h3, unfolded Let_def as]
  show ?thesis
    using h1 h2 h3 t by simp
qed

section \<open>\<^verbatim>\<open>server.py\<close> and the senders on every input\<close>

text \<open>Every chunk message of either sender is addressed to the wildcard.\<close>

lemma send_chunks_wildcard:
  "m \<in> set (send_chunks chunks) \<union> set (send_chunks_cli chunks) \<Longrightarrow> fst m = ANY_SOURCE"
  by (auto simp add: send_chunks_def send_chunks_cli_def)

text \<open>
  With a worker available, \<^verbatim>\<open>master_process\<close> raises for every request with
  \<^verbatim>\<open>num_chunks = 0\<close>, after the ready message.
\<close>

lemma master_process_transfer_zero_chunks:
  "remove1 source [1..<comm_size] \<noteq> [] \<Longrightarrow>
     master_process_transfer comm_size ts source fn fsz 0 ch fs =
       (Raised ZeroDivisionError, fs,
        [(Rank source, Tag 2, PDict (ready_srv (save_path ''mpi_uploads'' ts fn)))])"
  by (simp add: master_process_transfer_def Let_def)

text \<open>
  With a worker available, \<^verbatim>\<open>master_process\<close> never writes the file at the path it announced:
  however the call ends, that path holds what it held before.
\<close>

lemma worker_receive_srv_keeps:
  "q \<noteq> part_path fp rank \<Longrightarrow>
     snd (worker_receive_srv rank ch (work_data_dict src fp a) fs) q = fs q"
  by (cases a) (simp add: worker_receive_srv_def work_data_dict_def split: prod.splits)

lemma run_workers_srv_keeps:
  "\<forall>w\<in>set (map fst as). q \<noteq> part_path fp w \<Longrightarrow>
     snd (run_workers_srv ch (map (\<lambda>a. (fst a, work_data_dict src fp a)) as) fs) q = fs q"
proof (induction as arbitrary: fs)
  case Nil
  show ?case by simp
next
  case (Cons a as)
  obtain oc fs' where w: "worker_receive_srv (fst a) ch (work_data_dict src fp a) fs = (oc, fs')"
    by (cases "worker_receive_srv (fst a) ch (work_data_dict src fp a) fs")
  have k: "fs' q = fs q"
    using worker_receive_srv_keeps [of q fp "fst a" ch src a fs] Cons.prems w by simp
  have rest: "\<forall>w\<in>set (map fst as). q \<noteq> part_path fp w" using Cons.prems by simp
  show ?case
    using Cons.IH [OF rest, of fs'] w k by (cases oc) simp_all
qed

lemma master_process_transfer_never_joins:
  assumes "remove1 source [1..<comm_size] \<noteq> []"
  shows "fst (snd (master_process_transfer comm_size ts source fn fsz n ch fs))
           (save_path ''mpi_uploads'' ts fn) = fs (save_path ''mpi_uploads'' ts fn)"
proof -
  let ?fp = "save_path ''mpi_uploads'' ts fn"
  have keep: "fs' ?fp = fs ?fp"
    if "run_workers_srv ch (map (\<lambda>a. (fst a, work_data_dict source ?fp a)) as) fs = (oc, fs')"
    for as oc fs'
  proof -
    have "snd (run_workers_srv ch (map (\<lambda>a. (fst a, work_data_dict source ?fp a)) as) fs) ?fp
            = fs ?fp"
      using part_path_neq [of ?fp] by (intro run_workers_srv_keeps) (metis)
    then show ?thesis using that by simp
  qed
  show ?thesis
    using assms
    by (auto simp add: master_process_transfer_def Let_def split: prod.splits outcome.splits
          dest: keep)
qed

end
